theory Spec2Isabelle
  imports Complex_Main
begin

section \<open>Characters, tables and values\<close>

text \<open>
  The tokenizer and parser of \<^verbatim>\<open>heart/js/jscex-parser.js\<close>, embedded function by
  function. Source text is a list of 8-bit code units (\<^typ>\<open>char\<close>), so the Unicode
  character classes of the source are cut to the code units 0..255; an escape sequence
  that decodes to a code unit above 255 leaves the model (\<open>Beyond_Model\<close> below).
  Numbers are exact rationals: the rounding of IEEE doubles is not modelled.
\<close>

definition charCode :: "char \<Rightarrow> nat" where
  "charCode ch = of_char ch"

definition in_range :: "char \<Rightarrow> char \<Rightarrow> char \<Rightarrow> bool" where
  "in_range lo hi ch = (charCode lo \<le> charCode ch \<and> charCode ch \<le> charCode hi)"

definition HOP :: "string list \<Rightarrow> string \<Rightarrow> bool" where
  \<comment> \<open>\<open>HOP(obj, prop)\<close> for a table built by \<open>array_to_hash\<close>: the keys are the list.\<close>
  "HOP obj prop = (prop \<in> set obj)"

definition characters :: "string \<Rightarrow> string list" where
  "characters str = map (\<lambda>c. [c]) str"

definition KEYWORDS :: "string list" where
  "KEYWORDS = [''break'', ''case'', ''catch'', ''const'', ''continue'', ''default'',
     ''delete'', ''do'', ''else'', ''finally'', ''for'', ''function'', ''if'', ''in'',
     ''instanceof'', ''new'', ''return'', ''switch'', ''throw'', ''try'', ''typeof'',
     ''var'', ''void'', ''while'', ''with'']"

definition KEYWORDS_BEFORE_EXPRESSION :: "string list" where
  "KEYWORDS_BEFORE_EXPRESSION = [''return'', ''new'', ''delete'', ''throw'', ''else'', ''case'']"

definition KEYWORDS_ATOM :: "string list" where
  "KEYWORDS_ATOM = [''false'', ''null'', ''true'', ''undefined'']"

definition OPERATOR_CHARS :: "string list" where
  "OPERATOR_CHARS = characters ''+-*&%=<>!?|~^''"

definition OPERATORS :: "string list" where
  "OPERATORS = [''in'', ''instanceof'', ''typeof'', ''new'', ''void'', ''delete'',
     ''++'', ''--'', ''+'', ''-'', ''!'', ''~'', ''&'', ''|'', ''^'', ''*'', ''/'', ''%'',
     ''>>'', ''<<'', ''>>>'', ''<'', ''>'', ''<='', ''>='', ''=='', ''==='', ''!='', ''!=='',
     ''?'', ''='', ''+='', ''-='', ''/='', ''*='', ''%='', ''>>='', ''<<='', ''>>>='',
     ''|='', ''^='', ''&='', ''&&'', ''||'']"

definition WHITESPACE_CHARS :: "string list" where
  \<comment> \<open>space, newline, carriage return, tab; the fifth character of the source's list is
     U+200B, above the modelled code units.\<close>
  "WHITESPACE_CHARS = characters '' \<newline>'' @ [[CHR 0x0D], [CHR 0x09]]"

definition PUNC_BEFORE_EXPRESSION :: "string list" where
  "PUNC_BEFORE_EXPRESSION = characters ''[{}(,.;:''"

definition PUNC_CHARS :: "string list" where
  "PUNC_CHARS = characters ''[]{}(),;:''"

definition UNARY_PREFIX :: "string list" where
  "UNARY_PREFIX = [''typeof'', ''void'', ''delete'', ''--'', ''++'', ''!'', ''~'', ''-'', ''+'']"

definition UNARY_POSTFIX :: "string list" where
  "UNARY_POSTFIX = [''--'', ''++'']"

definition STATEMENTS_WITH_LABELS :: "string list" where
  "STATEMENTS_WITH_LABELS = [''for'', ''do'', ''while'', ''switch'']"

definition ATOMIC_START_TOKEN :: "string list" where
  "ATOMIC_START_TOKEN = [''atom'', ''num'', ''string'', ''regexp'', ''name'']"

subsection \<open>Character classes\<close>

definition is_letter :: "char \<Rightarrow> bool" where
  \<comment> \<open>\<open>UNICODE.letter\<close> below U+0100: A-Z a-z, U+00AA, U+00B5, U+00BA, U+00C0-U+00D6,
     U+00D8-U+00F6, and the range starting at U+00F8.\<close>
  "is_letter ch = (in_range (CHR ''A'') (CHR ''Z'') ch \<or> in_range (CHR ''a'') (CHR ''z'') ch
     \<or> ch = CHR 0xAA \<or> ch = CHR 0xB5 \<or> ch = CHR 0xBA
     \<or> in_range (CHR 0xC0) (CHR 0xD6) ch \<or> in_range (CHR 0xD8) (CHR 0xF6) ch
     \<or> in_range (CHR 0xF8) (CHR 0xFF) ch)"

definition is_digit :: "char \<Rightarrow> bool" where
  "is_digit ch = (48 \<le> charCode ch \<and> charCode ch \<le> 57)"

definition is_alphanumeric_char :: "char \<Rightarrow> bool" where
  "is_alphanumeric_char ch = (is_digit ch \<or> is_letter ch)"

definition is_unicode_combining_mark :: "char \<Rightarrow> bool" where
  \<comment> \<open>Both mark classes of the source start at U+0300 or later.\<close>
  "is_unicode_combining_mark ch = False"

definition is_unicode_connector_punctuation :: "char \<Rightarrow> bool" where
  \<comment> \<open>The underscore is the only member below U+0100.\<close>
  "is_unicode_connector_punctuation ch = (ch = CHR ''_'')"

definition is_identifier_start :: "char \<Rightarrow> bool" where
  "is_identifier_start ch = (ch = CHR ''$'' \<or> ch = CHR ''_'' \<or> is_letter ch)"

definition is_identifier_char :: "char \<Rightarrow> bool" where
  \<comment> \<open>The two zero-width joiners of the source are above the modelled code units.\<close>
  "is_identifier_char ch = (is_identifier_start ch \<or> is_unicode_combining_mark ch
     \<or> is_digit ch \<or> is_unicode_connector_punctuation ch)"

subsection \<open>Regular expressions of the source\<close>

text \<open>
  The three number patterns are kept as regular expressions and run by derivatives.
  \<open>re_test\<close> is \<open>RegExp.test\<close> for a pattern anchored by \<open>^\<close> and \<open>$\<close>; its first
  argument is the \<open>i\<close> flag. A class is a list of ranges.
\<close>

datatype rexp =
  Zero | Eps | Cls "(char \<times> char) list" | Seq rexp rexp | Alt rexp rexp | Star rexp

definition Lit :: "char \<Rightarrow> rexp" where
  "Lit c = Cls [(c, c)]"

definition Opt :: "rexp \<Rightarrow> rexp" where
  "Opt r = Alt r Eps"

definition Plus :: "rexp \<Rightarrow> rexp" where
  "Plus r = Seq r (Star r)"

definition toLowerCase :: "char \<Rightarrow> char" where
  "toLowerCase c = (if in_range (CHR ''A'') (CHR ''Z'') c then char_of (charCode c + 32) else c)"

definition toUpperCase :: "char \<Rightarrow> char" where
  "toUpperCase c = (if in_range (CHR ''a'') (CHR ''z'') c then char_of (charCode c - 32) else c)"

definition cls_match :: "bool \<Rightarrow> (char \<times> char) list \<Rightarrow> char \<Rightarrow> bool" where
  \<comment> \<open>With the \<open>i\<close> flag a character matches when its other case is in the class (the
     classes of the source are ASCII).\<close>
  "cls_match i rs c = list_ex (\<lambda>(lo, hi). in_range lo hi c
      \<or> (i \<and> (in_range lo hi (toLowerCase c) \<or> in_range lo hi (toUpperCase c)))) rs"

fun nullable :: "rexp \<Rightarrow> bool" where
  "nullable Zero = False"
| "nullable Eps = True"
| "nullable (Cls rs) = False"
| "nullable (Seq r s) = (nullable r \<and> nullable s)"
| "nullable (Alt r s) = (nullable r \<or> nullable s)"
| "nullable (Star r) = True"

fun deriv :: "bool \<Rightarrow> char \<Rightarrow> rexp \<Rightarrow> rexp" where
  "deriv i c Zero = Zero"
| "deriv i c Eps = Zero"
| "deriv i c (Cls rs) = (if cls_match i rs c then Eps else Zero)"
| "deriv i c (Seq r s) =
     (if nullable r then Alt (Seq (deriv i c r) s) (deriv i c s) else Seq (deriv i c r) s)"
| "deriv i c (Alt r s) = Alt (deriv i c r) (deriv i c s)"
| "deriv i c (Star r) = Seq (deriv i c r) (Star r)"

fun re_test :: "bool \<Rightarrow> rexp \<Rightarrow> string \<Rightarrow> bool" where
  "re_test i r [] = nullable r"
| "re_test i r (c # cs) = re_test i (deriv i c r) cs"

definition re_digit :: rexp where
  "re_digit = Cls [(CHR ''0'', CHR ''9'')]"

definition RE_HEX_NUMBER :: rexp where
  \<comment> \<open>\<^verbatim>\<open>/^0x[0-9a-f]+$/i\<close>\<close>
  "RE_HEX_NUMBER = Seq (Lit (CHR ''0'')) (Seq (Lit (CHR ''x''))
     (Plus (Cls [(CHR ''0'', CHR ''9''), (CHR ''a'', CHR ''f'')])))"

definition RE_OCT_NUMBER :: rexp where
  \<comment> \<open>\<^verbatim>\<open>/^0[0-7]+$/\<close>\<close>
  "RE_OCT_NUMBER = Seq (Lit (CHR ''0'')) (Plus (Cls [(CHR ''0'', CHR ''7'')]))"

definition RE_DEC_NUMBER :: rexp where
  \<comment> \<open>\<^verbatim>\<open>/^\d*\.?\d*(?:e[+-]?\d*(?:\d\.?|\.?\d)\d*)?$/i\<close>\<close>
  "RE_DEC_NUMBER =
     Seq (Star re_digit) (Seq (Opt (Lit (CHR ''.''))) (Seq (Star re_digit)
       (Opt (Seq (Lit (CHR ''e''))
          (Seq (Opt (Cls [(CHR ''+'', CHR ''+''), (CHR ''-'', CHR ''-'')]))
            (Seq (Star re_digit)
              (Seq (Alt (Seq re_digit (Opt (Lit (CHR ''.''))))
                        (Seq (Opt (Lit (CHR ''.''))) re_digit))
                   (Star re_digit))))))))"

subsection \<open>Numbers\<close>

datatype jsnum = NaN | Num rat

definition digit_val :: "char \<Rightarrow> nat" where
  \<comment> \<open>The value of a digit in \<open>parseInt\<close>; 36 for a character that is no digit.\<close>
  "digit_val c = (if in_range (CHR ''0'') (CHR ''9'') c then charCode c - 48
     else if in_range (CHR ''a'') (CHR ''z'') c then charCode c - 87
     else if in_range (CHR ''A'') (CHR ''Z'') c then charCode c - 55 else 36)"

definition parseInt :: "string \<Rightarrow> nat \<Rightarrow> jsnum" where
  \<comment> \<open>The builtin on a string with no leading blanks or sign: the longest prefix of
     digits of the radix, \<open>NaN\<close> when it is empty.\<close>
  "parseInt s radix =
     (let ds = takeWhile (\<lambda>c. digit_val c < radix) s
      in if ds = [] then NaN
         else Num (of_nat (foldl (\<lambda>a c. a * radix + digit_val c) 0 ds)))"

definition scale10 :: "rat \<Rightarrow> int \<Rightarrow> rat" where
  "scale10 m e = (if 0 \<le> e then m * 10 ^ nat e else m / 10 ^ nat (- e))"

definition exponent_of :: "string \<Rightarrow> int" where
  \<comment> \<open>The exponent part after \<open>e\<close>: an optional sign and digits; without a digit the
     builtin does not read an exponent.\<close>
  "exponent_of r =
     (let neg = (case r of c # _ \<Rightarrow> c = CHR ''-'' | [] \<Rightarrow> False);
          r1 = (case r of c # cs \<Rightarrow> if c = CHR ''+'' \<or> c = CHR ''-'' then cs else r | [] \<Rightarrow> r);
          ds = takeWhile is_digit r1;
          n = int (foldl (\<lambda>a c. a * 10 + digit_val c) 0 ds)
      in if ds = [] then 0 else if neg then - n else n)"

definition parseFloat :: "string \<Rightarrow> jsnum" where
  \<comment> \<open>The builtin on a string with no leading blanks or sign: the longest prefix that
     is a decimal literal, \<open>NaN\<close> when there is no digit before the exponent.\<close>
  "parseFloat s =
     (let ip = takeWhile is_digit s;
          r1 = dropWhile is_digit s;
          fp = (case r1 of c # r \<Rightarrow> if c = CHR ''.'' then takeWhile is_digit r else [] | [] \<Rightarrow> []);
          r2 = (case r1 of c # r \<Rightarrow> if c = CHR ''.'' then dropWhile is_digit r else r1 | [] \<Rightarrow> []);
          ex = (case r2 of c # r \<Rightarrow> if c = CHR ''e'' \<or> c = CHR ''E'' then exponent_of r else 0
                | [] \<Rightarrow> 0)
      in if ip = [] \<and> fp = [] then NaN
         else Num (scale10 (of_nat (foldl (\<lambda>a c. a * 10 + digit_val c) 0 (ip @ fp)))
                    (ex - int (length fp))))"

definition parse_js_number :: "string \<Rightarrow> jsnum option" where
  \<comment> \<open>\<open>None\<close> is the \<open>undefined\<close> the source returns when no pattern matches.\<close>
  "parse_js_number num =
     (if re_test True RE_HEX_NUMBER num then Some (parseInt (drop 2 num) 16)
      else if re_test False RE_OCT_NUMBER num then Some (parseInt (drop 1 num) 8)
      else if re_test True RE_DEC_NUMBER num then Some (parseFloat num)
      else None)"

subsection \<open>Rendering numbers\<close>

function string_of_nat :: "nat \<Rightarrow> string" where
  \<comment> \<open>The decimal digits of a natural number, most significant first.\<close>
  "string_of_nat n =
     (if n < 10 then [char_of (48 + n)]
      else string_of_nat (n div 10) @ [char_of (48 + n mod 10)])"
  by pat_completeness auto
termination
  by (relation "measure (\<lambda>n. n)") auto

declare string_of_nat.simps [simp del]

subsection \<open>Errors\<close>

text \<open>
  \<open>js_error\<close> throws \<open>new JS_Parse_Error(message, line, col, pos)\<close>; the constructor
  also stores in \<open>stack\<close> the stack text the engine attaches to a probe exception. The
  thrown values of the model carry the four arguments; the object with its \<open>stack\<close>
  is the record below, built from the engine's text.
\<close>

datatype exn =
  EX_EOF
  | JS_Parse_Error string nat nat nat
  | TypeError
  | Beyond_Model

record parse_error_obj =
  message :: string
  err_line :: nat
  err_col :: nat
  err_pos :: nat
  stack :: string

definition new_JS_Parse_Error :: "string \<Rightarrow> string \<Rightarrow> nat \<Rightarrow> nat \<Rightarrow> nat \<Rightarrow> parse_error_obj" where
  \<comment> \<open>The first argument is \<open>ex.stack\<close> of the probe exception, as the text it
     concatenates to.\<close>
  "new_JS_Parse_Error engine_stack msg l c p =
     \<lparr>message = msg, err_line = l, err_col = c, err_pos = p, stack = engine_stack\<rparr>"

definition toString :: "parse_error_obj \<Rightarrow> string" where
  "toString this = message this @ '' (line: '' @ string_of_nat (err_line this)
     @ '', col: '' @ string_of_nat (err_col this)
     @ '', pos: '' @ string_of_nat (err_pos this) @ '')'' @ ''\<newline>\<newline>'' @ stack this"

section \<open>Tokenizer\<close>

datatype tokval = VUndef | VNum rat | VStr string | VRegexp string string

text \<open>
  A token; \<open>tok_comments_before\<close> is \<open>None\<close> on a comment token, where the source
  leaves the field out.
\<close>

datatype token = Token
  (tok_type: string) (tok_value: tokval) (tok_line: nat) (tok_col: nat) (tok_pos: nat)
  (tok_nlb: bool) (tok_comments_before: "token list option")

record scanner =
  text' :: string
  pos :: nat
  tokpos :: nat
  line :: nat
  tokline :: nat
  col :: nat
  tokcol :: nat
  newline_before :: bool
  regex_allowed :: bool
  comments_before :: "token list"

fun normalize_newlines :: "string \<Rightarrow> string" where
  \<comment> \<open>The first \<open>replace\<close> of the constructor: a carriage return with an optional
     newline becomes a newline (the two Unicode separators are above the modelled
     code units).\<close>
  "normalize_newlines [] = []"
| "normalize_newlines (c # cs) =
     (if c = CHR 0x0D then
        (case cs of d # ds \<Rightarrow>
            if d = CHR ''\<newline>'' then CHR ''\<newline>'' # normalize_newlines ds
            else CHR ''\<newline>'' # normalize_newlines cs
         | [] \<Rightarrow> [CHR ''\<newline>''])
      else c # normalize_newlines cs)"

definition tokenizer :: "string \<Rightarrow> scanner" where
  \<comment> \<open>The initial state of the closure; the byte order mark is above the modelled
     code units.\<close>
  "tokenizer TEXT = \<lparr>text' = normalize_newlines TEXT, pos = 0, tokpos = 0, line = 0,
     tokline = 0, col = 0, tokcol = 0, newline_before = False, regex_allowed = False,
     comments_before = []\<rparr>"

definition peek :: "scanner \<Rightarrow> char option" where
  \<comment> \<open>\<open>charAt\<close>: \<open>None\<close> is the empty string past the end.\<close>
  "peek S = (if pos S < length (text' S) then Some (text' S ! pos S) else None)"

definition next_ch :: "scanner \<Rightarrow> char option \<times> scanner" where
  \<comment> \<open>\<open>next()\<close>.\<close>
  "next_ch S =
     (let ch = peek S; S1 = S\<lparr>pos := pos S + 1\<rparr>
      in if ch = Some (CHR ''\<newline>'')
         then (ch, S1\<lparr>newline_before := True, line := line S1 + 1, col := 0\<rparr>)
         else (ch, S1\<lparr>col := col S1 + 1\<rparr>))"

definition next_eof :: "scanner \<Rightarrow> exn + char \<times> scanner" where
  \<comment> \<open>\<open>next(true)\<close>: throws \<open>EX_EOF\<close> past the end.\<close>
  "next_eof S = (case next_ch S of (None, S1) \<Rightarrow> Inl EX_EOF | (Some ch, S1) \<Rightarrow> Inr (ch, S1))"

fun indexOf_from :: "string \<Rightarrow> string \<Rightarrow> nat \<Rightarrow> nat option" where
  "indexOf_from what [] i = (if what = [] then Some i else None)"
| "indexOf_from what (c # cs) i =
     (if take (length what) (c # cs) = what then Some i else indexOf_from what cs (i + 1))"

definition indexOf :: "string \<Rightarrow> string \<Rightarrow> nat \<Rightarrow> nat option" where
  \<comment> \<open>\<open>text.indexOf(what, from)\<close>; \<open>None\<close> is -1.\<close>
  "indexOf txt what from = indexOf_from what (drop from txt) from"

definition find :: "string \<Rightarrow> scanner \<Rightarrow> nat option" where
  "find what S = indexOf (text' S) what (pos S)"

definition find_eof :: "string \<Rightarrow> scanner \<Rightarrow> exn + nat" where
  \<comment> \<open>\<open>find(what, true)\<close>.\<close>
  "find_eof what S = (case find what S of None \<Rightarrow> Inl EX_EOF | Some i \<Rightarrow> Inr i)"

definition substring :: "string \<Rightarrow> nat \<Rightarrow> nat \<Rightarrow> string" where
  \<comment> \<open>\<open>substring(a, b)\<close> with \<open>a \<le> b\<close>, as at both call sites.\<close>
  "substring txt a b = take (b - a) (drop a txt)"

definition start_token :: "scanner \<Rightarrow> scanner" where
  "start_token S = S\<lparr>tokline := line S, tokcol := col S, tokpos := pos S\<rparr>"

definition HOPv :: "string list \<Rightarrow> tokval \<Rightarrow> bool" where
  \<comment> \<open>\<open>HOP\<close> on a token value; the three calls in \<open>token\<close> are guarded by a token type
     whose values are strings.\<close>
  "HOPv obj v = (case v of VStr s \<Rightarrow> HOP obj s | _ \<Rightarrow> False)"

definition token :: "string \<Rightarrow> tokval \<Rightarrow> bool \<Rightarrow> scanner \<Rightarrow> token \<times> scanner" where
  "token type val is_comment S =
     (let S1 = S\<lparr>regex_allowed :=
                  ((type = ''operator'' \<and> \<not> HOPv UNARY_POSTFIX val)
                   \<or> (type = ''keyword'' \<and> HOPv KEYWORDS_BEFORE_EXPRESSION val)
                   \<or> (type = ''punc'' \<and> HOPv PUNC_BEFORE_EXPRESSION val))\<rparr>;
          ret = Token type val (tokline S1) (tokcol S1) (tokpos S1) (newline_before S1)
                  (if is_comment then None else Some (comments_before S1));
          S2 = (if is_comment then S1 else S1\<lparr>comments_before := []\<rparr>)
      in (ret, S2\<lparr>newline_before := False\<rparr>))"

lemma peek_Some_lt: "peek S = Some c \<Longrightarrow> pos S < length (text' S)"
  by (simp add: peek_def split: if_splits)

lemma next_ch_text [simp]: "text' (snd (next_ch S)) = text' S"
  by (simp add: next_ch_def Let_def)

lemma next_ch_pos [simp]: "pos (snd (next_ch S)) = pos S + 1"
  by (simp add: next_ch_def Let_def)

lemma next_ch_fst [simp]: "fst (next_ch S) = peek S"
  by (simp add: next_ch_def Let_def)

function skip_whitespace :: "scanner \<Rightarrow> scanner" where
  "skip_whitespace S =
     (case peek S of
        Some ch \<Rightarrow> if HOP WHITESPACE_CHARS [ch] then skip_whitespace (snd (next_ch S)) else S
      | None \<Rightarrow> S)"
  by pat_completeness auto
termination
  by (relation "measure (\<lambda>S. length (text' S) - pos S)") (auto dest: peek_Some_lt)

declare skip_whitespace.simps [simp del]

text \<open>
  \<open>read_while(pred)\<close>: the predicate of \<open>read_num\<close> updates flags of its closure, so a
  predicate takes and returns its flags. \<open>i\<close> counts the calls, \<open>ret\<close> is the text read.
\<close>

function read_while_loop ::
  "('f \<Rightarrow> char \<Rightarrow> nat \<Rightarrow> bool \<times> 'f) \<Rightarrow> 'f \<Rightarrow> nat \<Rightarrow> string \<Rightarrow> scanner \<Rightarrow> string \<times> scanner" where
  "read_while_loop pred fl i ret S =
     (case peek S of
        None \<Rightarrow> (ret, S)
      | Some ch \<Rightarrow>
          (case pred fl ch i of
             (True, fl1) \<Rightarrow> read_while_loop pred fl1 (i + 1) (ret @ [ch]) (snd (next_ch S))
           | (False, fl1) \<Rightarrow> (ret, S)))"
  by pat_completeness auto
termination
  by (relation "measure (\<lambda>(pred, fl, i, ret, S). length (text' S) - pos S)")
     (auto dest: peek_Some_lt)

declare read_while_loop.simps [simp del]

definition read_while ::
  "('f \<Rightarrow> char \<Rightarrow> nat \<Rightarrow> bool \<times> 'f) \<Rightarrow> 'f \<Rightarrow> scanner \<Rightarrow> string \<times> scanner" where
  "read_while pred fl S = read_while_loop pred fl 0 [] S"

definition parse_error :: "string \<Rightarrow> scanner \<Rightarrow> exn + 'a" where
  "parse_error err S = Inl (JS_Parse_Error err (tokline S) (tokcol S) (tokpos S))"

record num_flags =
  has_e :: bool
  after_e :: bool
  has_x :: bool
  has_dot :: bool

definition read_num_pred :: "string option \<Rightarrow> num_flags \<Rightarrow> char \<Rightarrow> nat \<Rightarrow> bool \<times> num_flags" where
  \<comment> \<open>The anonymous predicate of \<open>read_num\<close>; \<open>prefix\<close> is \<open>None\<close> when the call passes
     no argument.\<close>
  "read_num_pred prefix fl ch i =
     (if ch = CHR ''x'' \<or> ch = CHR ''X'' then
        (if has_x fl then (False, fl) else (True, fl\<lparr>has_x := True\<rparr>))
      else if \<not> has_x fl \<and> (ch = CHR ''E'' \<or> ch = CHR ''e'') then
        (if has_e fl then (False, fl) else (True, fl\<lparr>has_e := True, after_e := True\<rparr>))
      else if ch = CHR ''-'' then
        (if after_e fl \<or> (i = 0 \<and> prefix = None) then (True, fl) else (False, fl))
      else if ch = CHR ''+'' then (after_e fl, fl)
      else
        (let fl1 = fl\<lparr>after_e := False\<rparr>
         in if ch = CHR ''.'' then
              (if \<not> has_dot fl1 \<and> \<not> has_x fl1 then (True, fl1\<lparr>has_dot := True\<rparr>)
               else (False, fl1))
            else (is_alphanumeric_char ch, fl1)))"

definition read_num_lexeme :: "string option \<Rightarrow> scanner \<Rightarrow> string \<times> scanner" where
  \<comment> \<open>The first half of \<open>read_num\<close>: the text \<open>num\<close> handed to \<open>parse_js_number\<close>.\<close>
  "read_num_lexeme prefix S =
     (let fl = \<lparr>has_e = False, after_e = False, has_x = False, has_dot = (prefix = Some ''.'')\<rparr>;
          (num, S1) = read_while (read_num_pred prefix) fl S
      in (case prefix of Some p \<Rightarrow> (p @ num, S1) | None \<Rightarrow> (num, S1)))"

definition read_num :: "string option \<Rightarrow> scanner \<Rightarrow> exn + token \<times> scanner" where
  \<comment> \<open>\<open>isNaN(valid)\<close> holds for \<open>undefined\<close> (\<open>None\<close>) and for \<open>NaN\<close>.\<close>
  "read_num prefix S =
     (let (num, S1) = read_num_lexeme prefix S;
          valid = parse_js_number num
      in case valid of
           Some (Num v) \<Rightarrow> Inr (token ''num'' (VNum v) False S1)
         | _ \<Rightarrow> parse_error (''Invalid syntax: '' @ num) S1)"

definition with_eof_error :: "string \<Rightarrow> scanner \<Rightarrow> exn + 'a \<Rightarrow> exn + 'a" where
  \<comment> \<open>The result of \<open>cont()\<close> is the third argument. The handler reads the token start
     of the state, which no \<open>cont\<close> of the source changes, so the state at entry
     serves.\<close>
  "with_eof_error eof_error S r =
     (case r of Inl EX_EOF \<Rightarrow> parse_error eof_error S | _ \<Rightarrow> r)"

definition fromCharCode :: "nat \<Rightarrow> exn + char" where
  "fromCharCode n = (if n < 256 then Inr (char_of n) else Inl Beyond_Model)"

fun hex_bytes :: "nat \<Rightarrow> nat \<Rightarrow> scanner \<Rightarrow> exn + nat \<times> scanner" where
  \<comment> \<open>The second argument is the local \<open>num\<close>, 0 at the call.\<close>
  "hex_bytes 0 num S = Inr (num, S)"
| "hex_bytes (Suc n) num S =
     (case next_eof S of
        Inl e \<Rightarrow> Inl e
      | Inr (ch, S1) \<Rightarrow>
          if digit_val ch < 16 then hex_bytes n (num * 16 + digit_val ch) S1
          else parse_error ''Invalid hex-character pattern in string'' S1)"

definition read_escaped_char :: "scanner \<Rightarrow> exn + char \<times> scanner" where
  "read_escaped_char S =
     (case next_eof S of
        Inl e \<Rightarrow> Inl e
      | Inr (ch, S1) \<Rightarrow>
          if ch = CHR ''n'' then Inr (CHR 0x0A, S1)
          else if ch = CHR ''r'' then Inr (CHR 0x0D, S1)
          else if ch = CHR ''t'' then Inr (CHR 0x09, S1)
          else if ch = CHR ''b'' then Inr (CHR 0x08, S1)
          else if ch = CHR ''v'' then Inr (CHR 0x0B, S1)
          else if ch = CHR ''f'' then Inr (CHR 0x0C, S1)
          else if ch = CHR ''0'' then Inr (CHR 0x00, S1)
          else if ch = CHR ''x'' \<or> ch = CHR ''u'' then
            (case hex_bytes (if ch = CHR ''x'' then 2 else 4) 0 S1 of
               Inl e \<Rightarrow> Inl e
             | Inr (n, S2) \<Rightarrow>
                 (case fromCharCode n of Inl e \<Rightarrow> Inl e | Inr c \<Rightarrow> Inr (c, S2)))
          else Inr (ch, S1))"

lemma next_eof_Inr:
  "next_eof S = Inr (ch, S1) \<Longrightarrow> peek S = Some ch \<and> S1 = snd (next_ch S)"
  by (cases "next_ch S") (auto simp: next_eof_def next_ch_def Let_def split: option.splits if_splits)

lemma next_eof_mono:
  "next_eof S = Inr (ch, S1) \<Longrightarrow>
     text' S1 = text' S \<and> pos S1 = pos S + 1 \<and> pos S < length (text' S)"
  by (auto dest!: next_eof_Inr peek_Some_lt)

lemma hex_bytes_mono:
  "hex_bytes n num S = Inr (v, S1) \<Longrightarrow> text' S1 = text' S \<and> pos S \<le> pos S1"
proof (induction n arbitrary: num S)
  case 0
  then show ?case by simp
next
  case (Suc n)
  then show ?case
    by (fastforce simp: parse_error_def split: sum.splits if_splits dest: next_eof_mono)
qed

lemma read_escaped_char_mono:
  "read_escaped_char S = Inr (c, S1) \<Longrightarrow>
     text' S1 = text' S \<and> pos S < pos S1 \<and> pos S < length (text' S)"
  unfolding read_escaped_char_def
  by (fastforce split: sum.splits if_splits prod.splits dest: next_eof_mono hex_bytes_mono)

function read_string_loop :: "char option \<Rightarrow> string \<Rightarrow> scanner \<Rightarrow> exn + token \<times> scanner" where
  \<comment> \<open>The \<open>for (;;)\<close> of \<open>read_string\<close>.\<close>
  "read_string_loop quote ret S =
     (case next_eof S of
        Inl e \<Rightarrow> Inl e
      | Inr (ch, S1) \<Rightarrow>
          if ch = CHR 0x5C then
            (case read_escaped_char S1 of
               Inl e \<Rightarrow> Inl e
             | Inr (c, S2) \<Rightarrow> read_string_loop quote (ret @ [c]) S2)
          else if Some ch = quote then Inr (token ''string'' (VStr ret) False S1)
          else read_string_loop quote (ret @ [ch]) S1)"
  by pat_completeness auto
termination
  by (relation "measure (\<lambda>(quote, ret, S). length (text' S) - pos S)")
     (auto dest!: next_eof_mono read_escaped_char_mono)

declare read_string_loop.simps [simp del]

definition read_string :: "scanner \<Rightarrow> exn + token \<times> scanner" where
  "read_string S =
     with_eof_error ''Unterminated string constant'' S
       (case next_ch S of (quote, S1) \<Rightarrow> read_string_loop quote [] S1)"

definition read_line_comment :: "scanner \<Rightarrow> token \<times> scanner" where
  "read_line_comment S =
     (let S1 = snd (next_ch S)
      in case find ''\<newline>'' S1 of
           None \<Rightarrow> token ''comment1'' (VStr (drop (pos S1) (text' S1))) True
                     (S1\<lparr>pos := length (text' S1)\<rparr>)
         | Some i \<Rightarrow> token ''comment1'' (VStr (substring (text' S1) (pos S1) i)) True
                     (S1\<lparr>pos := i\<rparr>))"

definition read_multiline_comment :: "scanner \<Rightarrow> exn + token \<times> scanner" where
  \<comment> \<open>The three \<open>warn\<close> calls are left out: \<open>warn\<close> is the empty function.\<close>
  "read_multiline_comment S =
     (let S1 = snd (next_ch S)
      in with_eof_error ''Unterminated multiline comment'' S1
           (case find_eof ''*/'' S1 of
              Inl e \<Rightarrow> Inl e
            | Inr i \<Rightarrow>
                (let txt = substring (text' S1) (pos S1) i
                 in case token ''comment2'' (VStr txt) True S1 of
                      (tok, S2) \<Rightarrow>
                        Inr (tok, S2\<lparr>pos := i + 2,
                                      line := line S2 + count_list txt (CHR ''\<newline>''),
                                      newline_before := (CHR ''\<newline>'' \<in> set txt)\<rparr>))))"

function read_name_loop :: "bool \<Rightarrow> string \<Rightarrow> scanner \<Rightarrow> exn + string \<times> scanner" where
  \<comment> \<open>The \<open>while\<close> of \<open>read_name\<close>; its condition always holds (\<open>charAt\<close> never
     returns \<open>null\<close>).\<close>
  "read_name_loop backslash name S =
     (if \<not> backslash then
        (case peek S of
           Some ch \<Rightarrow>
             if ch = CHR 0x5C then read_name_loop True name (snd (next_ch S))
             else if is_identifier_char ch then read_name_loop False (name @ [ch]) (snd (next_ch S))
             else Inr (name, S)
         | None \<Rightarrow> Inr (name, S))
      else if peek S \<noteq> Some (CHR ''u'') then
        parse_error ''Expecting UnicodeEscapeSequence -- uXXXX'' S
      else
        (case read_escaped_char S of
           Inl e \<Rightarrow> Inl e
         | Inr (ch, S1) \<Rightarrow>
             if \<not> is_identifier_char ch then
               parse_error (''Unicode char: '' @ string_of_nat (charCode ch)
                            @ '' is not valid in identifier'') S1
             else read_name_loop False (name @ [ch]) S1))"
  by pat_completeness auto
termination
  by (relation "measure (\<lambda>(backslash, name, S). length (text' S) - pos S)")
     (auto dest!: peek_Some_lt read_escaped_char_mono)

declare read_name_loop.simps [simp del]

definition read_name :: "scanner \<Rightarrow> exn + string \<times> scanner" where
  "read_name S = read_name_loop False [] S"

function read_regexp_loop :: "bool \<Rightarrow> string \<Rightarrow> bool \<Rightarrow> scanner \<Rightarrow> exn + string \<times> scanner" where
  \<comment> \<open>The \<open>while\<close> of \<open>read_regexp\<close>; it returns the pattern at the closing slash.\<close>
  "read_regexp_loop prev_backslash regexp in_class S =
     (case next_eof S of
        Inl e \<Rightarrow> Inl e
      | Inr (ch, S1) \<Rightarrow>
          if prev_backslash then read_regexp_loop False (regexp @ [CHR 0x5C, ch]) in_class S1
          else if ch = CHR ''['' then read_regexp_loop False (regexp @ [ch]) True S1
          else if ch = CHR '']'' \<and> in_class then read_regexp_loop False (regexp @ [ch]) False S1
          else if ch = CHR ''/'' \<and> \<not> in_class then Inr (regexp, S1)
          else if ch = CHR 0x5C then read_regexp_loop True regexp in_class S1
          else read_regexp_loop False (regexp @ [ch]) in_class S1)"
  by pat_completeness auto
termination
  by (relation "measure (\<lambda>(b, regexp, c, S). length (text' S) - pos S)")
     (auto dest!: next_eof_mono)

declare read_regexp_loop.simps [simp del]

definition read_regexp :: "scanner \<Rightarrow> exn + token \<times> scanner" where
  "read_regexp S =
     with_eof_error ''Unterminated regular expression'' S
       (case read_regexp_loop False [] False S of
          Inl e \<Rightarrow> Inl e
        | Inr (regexp, S1) \<Rightarrow>
            (case read_name S1 of
               Inl e \<Rightarrow> Inl e
             | Inr (mods, S2) \<Rightarrow> Inr (token ''regexp'' (VRegexp regexp mods) False S2)))"

function grow :: "string \<Rightarrow> scanner \<Rightarrow> string \<times> scanner" where
  "grow op S =
     (case peek S of
        None \<Rightarrow> (op, S)
      | Some ch \<Rightarrow>
          if HOP OPERATORS (op @ [ch]) then grow (op @ [ch]) (snd (next_ch S)) else (op, S))"
  by pat_completeness auto
termination
  by (relation "measure (\<lambda>(op, S). length (text' S) - pos S)") (auto dest: peek_Some_lt)

declare grow.simps [simp del]

definition read_operator :: "string option \<Rightarrow> scanner \<Rightarrow> token \<times> scanner" where
  "read_operator prefix S =
     (case (case prefix of
              Some p \<Rightarrow> (p, S)
            | None \<Rightarrow> (case next_ch S of (Some c, S1) \<Rightarrow> ([c], S1) | (None, S1) \<Rightarrow> ([], S1)))
      of (op0, S1) \<Rightarrow>
        (case grow op0 S1 of (op, S2) \<Rightarrow> token ''operator'' (VStr op) False S2))"

definition handle_dot :: "scanner \<Rightarrow> exn + token \<times> scanner" where
  "handle_dot S =
     (let S1 = snd (next_ch S)
      in case peek S1 of
           Some ch \<Rightarrow> if is_digit ch then read_num (Some ''.'') S1
                      else Inr (token ''punc'' (VStr ''.'') False S1)
         | None \<Rightarrow> Inr (token ''punc'' (VStr ''.'') False S1))"

definition read_word :: "scanner \<Rightarrow> exn + token \<times> scanner" where
  "read_word S =
     (case read_name S of
        Inl e \<Rightarrow> Inl e
      | Inr (word, S1) \<Rightarrow>
          Inr (if \<not> HOP KEYWORDS word then token ''name'' (VStr word) False S1
               else if HOP OPERATORS word then token ''operator'' (VStr word) False S1
               else if HOP KEYWORDS_ATOM word then token ''atom'' (VStr word) False S1
               else token ''keyword'' (VStr word) False S1))"

lemma skip_whitespace_mono:
  "text' (skip_whitespace S) = text' S \<and> pos S \<le> pos (skip_whitespace S)"
proof (induction S rule: skip_whitespace.induct)
  case (1 S)
  show ?case
  proof (cases "peek S")
    case None
    then show ?thesis by (subst (1 2) skip_whitespace.simps) simp
  next
    case (Some ch)
    with 1 show ?thesis
      by (subst (1 2) skip_whitespace.simps) (cases "HOP WHITESPACE_CHARS [ch]", auto)
  qed
qed

lemma token_frame:
  "text' (snd (token t v c S)) = text' S \<and> pos (snd (token t v c S)) = pos S"
  by (simp add: token_def Let_def)

lemma indexOf_from_bounds:
  "indexOf_from what xs i = Some j \<Longrightarrow> i \<le> j"
  by (induction xs arbitrary: i) (fastforce split: if_splits)+

lemma read_line_comment_mono:
  assumes "pos S < length (text' S)"
  shows "text' (snd (read_line_comment S)) = text' S \<and> pos S < pos (snd (read_line_comment S))"
proof (cases "find ''\<newline>'' (snd (next_ch S))")
  case None
  with assms show ?thesis
    by (simp add: read_line_comment_def Let_def token_frame)
next
  case (Some i)
  then have "pos S + 1 \<le> i"
    using indexOf_from_bounds by (fastforce simp: find_def indexOf_def)
  with Some show ?thesis
    by (simp add: read_line_comment_def Let_def token_frame)
qed

lemma read_multiline_comment_mono:
  assumes "read_multiline_comment S = Inr (tok, S2)"
  shows "text' S2 = text' S \<and> pos S < pos S2"
proof (cases "find ''*/'' (snd (next_ch S))")
  case None
  with assms show ?thesis
    by (simp add: read_multiline_comment_def Let_def find_eof_def with_eof_error_def
        parse_error_def)
next
  case (Some i)
  then have le: "pos S + 1 \<le> i"
    using indexOf_from_bounds by (fastforce simp: find_def indexOf_def)
  obtain t S3 where tk: "token ''comment2''
      (VStr (substring (text' (snd (next_ch S))) (pos (snd (next_ch S))) i)) True (snd (next_ch S))
      = (t, S3)"
    by (cases "token ''comment2''
      (VStr (substring (text' (snd (next_ch S))) (pos (snd (next_ch S))) i)) True (snd (next_ch S))")
  from tk have "text' S3 = text' S"
    using token_frame [of "''comment2''" _ True "snd (next_ch S)"] by (metis next_ch_text snd_conv)
  with assms Some tk le show ?thesis
    by (auto simp: read_multiline_comment_def Let_def find_eof_def with_eof_error_def)
qed

function next_token :: "bool \<Rightarrow> scanner \<Rightarrow> exn + token \<times> scanner"
  and handle_slash :: "scanner \<Rightarrow> exn + token \<times> scanner" where
  "next_token force_regexp S =
     (if force_regexp then read_regexp S
      else
        (let S1 = start_token (skip_whitespace S)
         in case peek S1 of
              None \<Rightarrow> Inr (token ''eof'' VUndef False S1)
            | Some ch \<Rightarrow>
                if is_digit ch then read_num None S1
                else if ch = CHR 0x22 \<or> ch = CHR 0x27 then read_string S1
                else if HOP PUNC_CHARS [ch] then
                  Inr (token ''punc'' (VStr [ch]) False (snd (next_ch S1)))
                else if ch = CHR ''.'' then handle_dot S1
                else if ch = CHR ''/'' then handle_slash S1
                else if HOP OPERATOR_CHARS [ch] then Inr (read_operator None S1)
                else if ch = CHR 0x5C \<or> is_identifier_start ch then read_word S1
                else parse_error (''Unexpected character '' @ [CHR 0x27, ch, CHR 0x27]) S1))"
| "handle_slash S =
     (let S1 = snd (next_ch S);
          regex_allowed0 = regex_allowed S1
      in if peek S1 = Some (CHR ''/'') then
           (case read_line_comment S1 of
              (c, S2) \<Rightarrow>
                next_token False
                  (S2\<lparr>comments_before := comments_before S2 @ [c],
                      regex_allowed := regex_allowed0\<rparr>))
         else if peek S1 = Some (CHR ''*'') then
           (case read_multiline_comment S1 of
              Inl e \<Rightarrow> Inl e
            | Inr (c, S2) \<Rightarrow>
                next_token False
                  (S2\<lparr>comments_before := comments_before S2 @ [c],
                      regex_allowed := regex_allowed0\<rparr>))
         else if regex_allowed S1 then read_regexp S1
         else Inr (read_operator (Some ''/'') S1))"
  by pat_completeness auto
termination
proof (relation "measure (\<lambda>x. case x of
          Inl (f, S) \<Rightarrow> 2 * (length (text' S) - pos S) + 1
        | Inr S \<Rightarrow> 2 * (length (text' S) - pos S))", goal_cases)
  case 1
  then show ?case by simp
next
  case (2 force_regexp S S1 ch)
  then show ?case
    using skip_whitespace_mono [of S] by (auto simp: start_token_def)
next
  case (3 S S1 ra c S2)
  then have lt: "pos S1 < length (text' S1)" by (auto dest: peek_Some_lt)
  from 3 have "snd (read_line_comment S1) = S2" by (metis snd_conv)
  with read_line_comment_mono [OF lt] 3 lt show ?case by auto
next
  case (4 S S1 ra x c S2)
  then have lt: "pos S1 < length (text' S1)" by (auto dest: peek_Some_lt)
  from 4 have "read_multiline_comment S1 = Inr (c, S2)" by simp
  from read_multiline_comment_mono [OF this] 4 lt show ?case by auto
qed

declare next_token.simps [simp del] handle_slash.simps [simp del]

section \<open>Parser\<close>

subsection \<open>Values, state and the result of a call\<close>

text \<open>
  An AST node of the source is a JavaScript array whose first element is the tag, so the
  nodes are values of a small universe of JavaScript values. \<open>JNodeWithToken\<close> is the
  object \<open>new NodeWithToken(str, start, end)\<close>.
\<close>

datatype jsval =
  JUndef | JNull | JTrue | JNum rat | JStr string | JArr "jsval list"
  | JNodeWithToken jsval "token option" "token option"

definition jsv :: "tokval \<Rightarrow> jsval" where
  \<comment> \<open>A token value as a JavaScript value; a regexp token's value is a pair.\<close>
  "jsv v = (case v of VUndef \<Rightarrow> JUndef | VNum r \<Rightarrow> JNum r | VStr s \<Rightarrow> JStr s
     | VRegexp a b \<Rightarrow> JArr [JStr a, JStr b])"

definition String_of :: "tokval \<Rightarrow> string" where
  \<comment> \<open>String conversion in a message. A natural number prints in decimal; any other
     number prints here as a fraction, which is not the text JavaScript prints.\<close>
  "String_of v = (case v of
       VUndef \<Rightarrow> ''undefined''
     | VStr s \<Rightarrow> s
     | VRegexp a b \<Rightarrow> a @ '','' @ b
     | VNum r \<Rightarrow>
         (case quotient_of r of
            (n, d) \<Rightarrow> if d = 1 then string_of_nat (nat n)
                      else string_of_nat (nat n) @ ''/'' @ string_of_nat (nat d)))"

definition idx :: "jsval \<Rightarrow> nat \<Rightarrow> jsval" where
  \<comment> \<open>\<open>a[i]\<close> on an array: \<open>undefined\<close> out of range.\<close>
  "idx a i = (case a of JArr xs \<Rightarrow> if i < length xs then xs ! i else JUndef | _ \<Rightarrow> JUndef)"

fun tag_string :: "jsval \<Rightarrow> string option" where
  \<comment> \<open>The string a tag converts to (\<open>NodeWithToken.prototype.toString\<close> returns the
     name).\<close>
  "tag_string (JStr s) = Some s"
| "tag_string (JNodeWithToken nm st en) = tag_string nm"
| "tag_string v = None"

definition ASSIGNMENT :: "string \<Rightarrow> jsval option" where
  \<comment> \<open>The table built by the loop: \<open>=\<close> maps to \<open>true\<close>, a compound operator to itself
     without its last character.\<close>
  "ASSIGNMENT k =
     (if k \<in> set [''+='', ''-='', ''/='', ''*='', ''%='', ''>>='', ''<<='', ''>>>='',
                   ''|='', ''^='', ''&='']
      then Some (JStr (take (length k - 1) k))
      else if k = ''='' then Some JTrue else None)"

fun PRECEDENCE_build :: "string list list \<Rightarrow> nat \<Rightarrow> string \<Rightarrow> nat option" where
  \<comment> \<open>The two loops that fill the table: level \<open>n\<close> for the operators of the
     \<open>n\<close>-th list, a later entry overwriting an earlier one.\<close>
  "PRECEDENCE_build [] n k = None"
| "PRECEDENCE_build (b # a) n k =
     (case PRECEDENCE_build a (n + 1) k of
        Some m \<Rightarrow> Some m
      | None \<Rightarrow> if k \<in> set b then Some n else None)"

definition PRECEDENCE :: "string \<Rightarrow> nat option" where
  "PRECEDENCE = PRECEDENCE_build
     [[''||''], [''&&''], [''|''], [''^''], [''&''],
      [''=='', ''==='', ''!='', ''!==''],
      [''<'', ''>'', ''<='', ''>='', ''in'', ''instanceof''],
      [''>>'', ''<<'', ''>>>''],
      [''+'', ''-''],
      [''*'', ''/'', ''%'']] 1"

text \<open>
  The state \<open>S\<close> of \<open>parse\<close>. \<open>S_input\<close> is the state of the tokenizer closure;
  \<open>exigent_mode\<close> and \<open>embed_tokens\<close> are the two parameters of \<open>parse\<close>, which its
  inner functions read and never write. \<open>S_prev\<close> and \<open>S_peeked\<close> are \<open>None\<close> for
  \<open>null\<close>.
\<close>

record pstate =
  S_input :: scanner
  S_token :: token
  S_prev :: "token option"
  S_peeked :: "token option"
  S_in_function :: nat
  S_in_loop :: nat
  S_labels :: "tokval list"
  exigent_mode :: bool
  embed_tokens :: bool

text \<open>
  A call of a parser function returns \<open>None\<close> when the fuel of the recursion ran out,
  \<open>Some (Inl e)\<close> when it threw \<open>e\<close>, and \<open>Some (Inr (v, S))\<close> when it returned \<open>v\<close>
  and left the state \<open>S\<close>.
\<close>

type_synonym 'a res = "(exn + 'a \<times> pstate) option"

definition ret :: "'a \<Rightarrow> pstate \<Rightarrow> 'a res" where
  "ret x S = Some (Inr (x, S))"

definition throw :: "exn \<Rightarrow> 'a res" where
  "throw e = Some (Inl e)"

definition bnd :: "'a res \<Rightarrow> ('a \<Rightarrow> pstate \<Rightarrow> 'b res) \<Rightarrow> 'b res" where
  \<comment> \<open>Sequencing: run the first call, then the rest on its value and state.\<close>
  "bnd m f = (case m of None \<Rightarrow> None | Some (Inl e) \<Rightarrow> Some (Inl e) | Some (Inr (x, S)) \<Rightarrow> f x S)"

subsection \<open>Token access and errors\<close>

definition is_token :: "token \<Rightarrow> string \<Rightarrow> string option \<Rightarrow> bool" where
  \<comment> \<open>\<open>val\<close> is \<open>None\<close> when the call passes none. Every call with a value asks for a
     type whose tokens carry strings.\<close>
  "is_token tok type val =
     (tok_type tok = type \<and> (case val of None \<Rightarrow> True | Some v \<Rightarrow> tok_value tok = VStr v))"

definition is_p :: "pstate \<Rightarrow> string \<Rightarrow> string option \<Rightarrow> bool" where
  \<comment> \<open>\<open>is(type, value)\<close>.\<close>
  "is_p S type val = is_token (S_token S) type val"

definition input :: "bool \<Rightarrow> pstate \<Rightarrow> token res" where
  \<comment> \<open>\<open>S.input(force_regexp)\<close>: a call of the tokenizer closure.\<close>
  "input force_regexp S =
     (case next_token force_regexp (S_input S) of
        Inl e \<Rightarrow> throw e
      | Inr (t, sc) \<Rightarrow> ret t (S\<lparr>S_input := sc\<rparr>))"

definition peek_p :: "pstate \<Rightarrow> token res" where
  \<comment> \<open>\<open>peek()\<close> of the parser.\<close>
  "peek_p S =
     (case S_peeked S of
        Some t \<Rightarrow> ret t S
      | None \<Rightarrow> bnd (input False S) (\<lambda>t S1. ret t (S1\<lparr>S_peeked := Some t\<rparr>)))"

definition next_p :: "pstate \<Rightarrow> token res" where
  \<comment> \<open>\<open>next()\<close> of the parser.\<close>
  "next_p S =
     (let S1 = S\<lparr>S_prev := Some (S_token S)\<rparr>
      in case S_peeked S1 of
           Some t \<Rightarrow> ret t (S1\<lparr>S_token := t, S_peeked := None\<rparr>)
         | None \<Rightarrow> bnd (input False S1) (\<lambda>t S2. ret t (S2\<lparr>S_token := t\<rparr>)))"

definition croak :: "string \<Rightarrow> nat option \<Rightarrow> nat option \<Rightarrow> nat option \<Rightarrow> pstate \<Rightarrow> 'a res" where
  "croak msg l c p S =
     (let ctx = S_input S
      in throw (JS_Parse_Error msg
           (case l of Some v \<Rightarrow> v | None \<Rightarrow> tokline ctx)
           (case c of Some v \<Rightarrow> v | None \<Rightarrow> tokcol ctx)
           (case p of Some v \<Rightarrow> v | None \<Rightarrow> tokpos ctx)))"

definition token_error :: "token \<Rightarrow> string \<Rightarrow> pstate \<Rightarrow> 'a res" where
  "token_error tok msg S = croak msg (Some (tok_line tok)) (Some (tok_col tok)) None S"

definition unexpected :: "token option \<Rightarrow> pstate \<Rightarrow> 'a res" where
  "unexpected tok0 S =
     (let tok = (case tok0 of None \<Rightarrow> S_token S | Some t \<Rightarrow> t)
      in token_error tok
           (''Unexpected token: '' @ tok_type tok @ '' ('' @ String_of (tok_value tok) @ '')'') S)"

definition expect_token :: "string \<Rightarrow> string option \<Rightarrow> pstate \<Rightarrow> token res" where
  "expect_token type val S =
     (if is_p S type val then next_p S
      else token_error (S_token S)
             (''Unexpected token '' @ tok_type (S_token S) @ '', expected '' @ type) S)"

definition expect :: "string \<Rightarrow> pstate \<Rightarrow> token res" where
  "expect punc S = expect_token ''punc'' (Some punc) S"

definition can_insert_semicolon :: "pstate \<Rightarrow> bool" where
  "can_insert_semicolon S =
     (\<not> exigent_mode S
      \<and> (tok_nlb (S_token S) \<or> is_p S ''eof'' None \<or> is_p S ''punc'' (Some ''}'')))"

definition semicolon :: "pstate \<Rightarrow> unit res" where
  "semicolon S =
     (if is_p S ''punc'' (Some '';'') then bnd (next_p S) (\<lambda>t S1. ret () S1)
      else if \<not> can_insert_semicolon S then unexpected None S
      else ret () S)"

definition as :: "jsval list \<Rightarrow> jsval" where
  \<comment> \<open>\<open>as(...)\<close>: the array of its arguments.\<close>
  "as xs = JArr xs"

definition member :: "tokval \<Rightarrow> tokval list \<Rightarrow> bool" where
  "member name array = (name \<in> set array)"

definition add_tokens :: "jsval \<Rightarrow> token option \<Rightarrow> token option \<Rightarrow> jsval" where
  "add_tokens str start en =
     (case str of JNodeWithToken n s e \<Rightarrow> str | _ \<Rightarrow> JNodeWithToken str start en)"

definition set_tag :: "jsval \<Rightarrow> token option \<Rightarrow> token option \<Rightarrow> pstate \<Rightarrow> jsval res" where
  \<comment> \<open>\<open>ast[0] = add_tokens(ast[0], start, end); return ast\<close>; a \<open>TypeError\<close> when \<open>ast\<close>
     is \<open>undefined\<close>.\<close>
  "set_tag ast start en S =
     (case ast of
        JArr xs \<Rightarrow>
          ret (JArr (add_tokens (idx ast 0) start en # (case xs of [] \<Rightarrow> [] | x # r \<Rightarrow> r))) S
      | _ \<Rightarrow> throw TypeError)"

definition andthen :: "'a res \<Rightarrow> (pstate \<Rightarrow> 'b res) \<Rightarrow> 'b res" where
  \<comment> \<open>Sequencing that drops the value of the first call.\<close>
  "andthen m f = bnd m (\<lambda>x. f)"

subsection \<open>The recursive descent\<close>

text \<open>
  The parser functions call each other in cycles, so each takes the parser itself as its
  first argument \<open>rec\<close>: a call that closes a cycle is \<open>rec\<close> applied to the name and
  arguments of the function called, and costs one unit of fuel. A \<open>while\<close> loop whose
  body parses is such a call too, with the local variables of the loop as arguments.
\<close>

datatype call =
  Statement
  | Expression bool bool
  | Maybe_assign bool
  | Expr_op jsval nat bool
  | Expr_atom bool
  | Subscripts jsval bool
  | Expr_list_loop string bool bool bool "jsval list"
  | Object_loop bool "jsval list"
  | Function_args_loop bool "jsval list"
  | Block_loop "jsval list"
  | Switch_loop "jsval list" bool
  | Vardefs_loop bool "jsval list"
  | Toplevel_loop "jsval list"

type_synonym parser = "call \<Rightarrow> pstate \<Rightarrow> jsval res"

definition parenthesised :: "parser \<Rightarrow> pstate \<Rightarrow> jsval res" where
  "parenthesised rec S =
     andthen (expect ''('' S) (\<lambda>S1.
     bnd (rec (Expression True False) S1) (\<lambda>ex S2.
     andthen (expect '')'' S2) (\<lambda>S3. ret ex S3)))"

definition in_loop :: "(pstate \<Rightarrow> 'a res) \<Rightarrow> pstate \<Rightarrow> 'a res" where
  \<comment> \<open>The \<open>finally\<close> also runs when \<open>cont\<close> throws; the state is then dropped with the
     exception, which nothing in \<open>parse\<close> catches.\<close>
  "in_loop cont S =
     bnd (cont (S\<lparr>S_in_loop := S_in_loop S + 1\<rparr>)) (\<lambda>x S1.
     ret x (S1\<lparr>S_in_loop := S_in_loop S1 - 1\<rparr>))"

definition is_assignable :: "pstate \<Rightarrow> jsval \<Rightarrow> bool" where
  \<comment> \<open>The \<open>switch\<close> compares with \<open>===\<close>, so only a plain string tag matches; falling
     out of it returns \<open>undefined\<close>, which is false.\<close>
  "is_assignable S expr =
     (if \<not> exigent_mode S then True
      else (case idx expr 0 of
              JStr t \<Rightarrow>
                if t = ''dot'' \<or> t = ''sub'' \<or> t = ''new'' \<or> t = ''call'' then True
                else if t = ''name'' then idx expr 1 \<noteq> JStr ''this''
                else False
            | _ \<Rightarrow> False))"

definition make_unary :: "string \<Rightarrow> tokval \<Rightarrow> jsval \<Rightarrow> pstate \<Rightarrow> jsval res" where
  "make_unary tag op expr S =
     (if (op = VStr ''++'' \<or> op = VStr ''--'') \<and> \<not> is_assignable S expr
      then croak (''Invalid use of '' @ String_of op @ '' operator'') None None None S
      else ret (as [JStr tag, jsv op, expr]) S)"

definition as_name :: "pstate \<Rightarrow> tokval res" where
  "as_name S =
     (if tok_type (S_token S) \<in> set [''name'', ''operator'', ''keyword'', ''atom'']
      then andthen (next_p S) (\<lambda>S1. ret (tok_value (S_token S)) S1)
      else unexpected None S)"

definition as_property_name :: "pstate \<Rightarrow> tokval res" where
  "as_property_name S =
     (if tok_type (S_token S) \<in> set [''num'', ''string'']
      then andthen (next_p S) (\<lambda>S1. ret (tok_value (S_token S)) S1)
      else as_name S)"

definition vardefs_loop :: "parser \<Rightarrow> bool \<Rightarrow> jsval list \<Rightarrow> pstate \<Rightarrow> jsval res" where
  \<comment> \<open>One round of the \<open>for (;;)\<close> of \<open>vardefs\<close>, \<open>a\<close> being the list so far.\<close>
  "vardefs_loop rec no_in a S =
     (if \<not> is_p S ''name'' None then unexpected None S
      else
        (let name = tok_value (S_token S)
         in andthen (next_p S) (\<lambda>S1.
            bnd (if is_p S1 ''operator'' (Some ''='') then
                   andthen (next_p S1) (\<lambda>S2.
                   bnd (rec (Expression False no_in) S2) (\<lambda>e S3.
                   ret (a @ [JArr [jsv name, e]]) S3))
                 else ret (a @ [JArr [jsv name]]) S1) (\<lambda>a1 S4.
            if \<not> is_p S4 ''punc'' (Some '','') then ret (JArr a1) S4
            else andthen (next_p S4) (\<lambda>S5. rec (Vardefs_loop no_in a1) S5)))))"

definition vardefs :: "parser \<Rightarrow> bool \<Rightarrow> pstate \<Rightarrow> jsval res" where
  "vardefs rec no_in S = vardefs_loop rec no_in [] S"

definition var' :: "parser \<Rightarrow> bool \<Rightarrow> pstate \<Rightarrow> jsval res" where
  "var' rec no_in S = bnd (vardefs rec no_in S) (\<lambda>v S1. ret (as [JStr ''var'', v]) S1)"

definition const' :: "parser \<Rightarrow> pstate \<Rightarrow> jsval res" where
  "const' rec S = bnd (vardefs rec False S) (\<lambda>v S1. ret (as [JStr ''const'', v]) S1)"

definition expr_list_loop ::
  "parser \<Rightarrow> string \<Rightarrow> bool \<Rightarrow> bool \<Rightarrow> bool \<Rightarrow> jsval list \<Rightarrow> pstate \<Rightarrow> jsval res" where
  \<comment> \<open>The \<open>while\<close> of \<open>expr_list\<close> from its test on, and the \<open>next()\<close> after it.\<close>
  "expr_list_loop rec closing allow_trailing_comma allow_empty first a S =
     (if \<not> is_p S ''punc'' (Some closing) then
        andthen (if first then ret () S else andthen (expect '','' S) (\<lambda>S1. ret () S1)) (\<lambda>S1.
        if allow_trailing_comma \<and> is_p S1 ''punc'' (Some closing) then
          andthen (next_p S1) (\<lambda>S2. ret (JArr a) S2)
        else
          bnd (if is_p S1 ''punc'' (Some '','') \<and> allow_empty then
                 ret (a @ [JArr [JStr ''atom'', JStr ''undefined'']]) S1
               else bnd (rec (Expression False False) S1) (\<lambda>e S2. ret (a @ [e]) S2)) (\<lambda>a1 S3.
          rec (Expr_list_loop closing allow_trailing_comma allow_empty False a1) S3))
      else andthen (next_p S) (\<lambda>S1. ret (JArr a) S1))"

definition expr_list :: "parser \<Rightarrow> string \<Rightarrow> bool \<Rightarrow> bool \<Rightarrow> pstate \<Rightarrow> jsval res" where
  "expr_list rec closing allow_trailing_comma allow_empty S =
     expr_list_loop rec closing allow_trailing_comma allow_empty True [] S"

definition array' :: "parser \<Rightarrow> pstate \<Rightarrow> jsval res" where
  "array' rec S =
     bnd (expr_list rec '']'' (\<not> exigent_mode S) True S) (\<lambda>l S1. ret (as [JStr ''array'', l]) S1)"

definition block_loop :: "parser \<Rightarrow> jsval list \<Rightarrow> pstate \<Rightarrow> jsval res" where
  \<comment> \<open>The \<open>while\<close> of \<open>block_\<close> from its test on, and the \<open>next()\<close> after it.\<close>
  "block_loop rec a S =
     (if \<not> is_p S ''punc'' (Some ''}'') then
        (if is_p S ''eof'' None then unexpected None S
         else bnd (rec Statement S) (\<lambda>st S1. rec (Block_loop (a @ [st])) S1))
      else andthen (next_p S) (\<lambda>S1. ret (JArr a) S1))"

definition block' :: "parser \<Rightarrow> pstate \<Rightarrow> jsval res" where
  "block' rec S = andthen (expect ''{'' S) (\<lambda>S1. block_loop rec [] S1)"

definition function_args_loop :: "parser \<Rightarrow> bool \<Rightarrow> jsval list \<Rightarrow> pstate \<Rightarrow> jsval res" where
  \<comment> \<open>The \<open>while\<close> that reads the parameters in \<open>$function_\<close>, and the \<open>next()\<close> after
     it.\<close>
  "function_args_loop rec first a S =
     (if \<not> is_p S ''punc'' (Some '')'') then
        andthen (if first then ret () S else andthen (expect '','' S) (\<lambda>S1. ret () S1)) (\<lambda>S1.
        if \<not> is_p S1 ''name'' None then unexpected None S1
        else andthen (next_p S1) (\<lambda>S2.
             rec (Function_args_loop False (a @ [jsv (tok_value (S_token S1))])) S2))
      else andthen (next_p S) (\<lambda>S1. ret (JArr a) S1))"

definition dollar_function :: "parser \<Rightarrow> bool \<Rightarrow> pstate \<Rightarrow> jsval res" where
  \<comment> \<open>\<open>$function_\<close>. \<open>!name\<close> holds for \<open>null\<close> and for the empty string.\<close>
  "dollar_function rec in_statement S =
     bnd (if is_p S ''name'' None
          then andthen (next_p S) (\<lambda>S1. ret (jsv (tok_value (S_token S))) S1)
          else ret JNull S) (\<lambda>name S1.
     if in_statement \<and> (name = JNull \<or> name = JStr []) then unexpected None S1
     else
       andthen (expect ''('' S1) (\<lambda>S2.
       bnd (function_args_loop rec True [] S2) (\<lambda>args S3.
       (let loop = S_in_loop S3
        in bnd (block' rec (S3\<lparr>S_in_function := S_in_function S3 + 1, S_in_loop := 0\<rparr>))
             (\<lambda>a S4.
                ret (as [JStr (if in_statement then ''defun'' else ''function''), name, args, a])
                  (S4\<lparr>S_in_function := S_in_function S4 - 1, S_in_loop := loop\<rparr>))))))"

definition function' :: "parser \<Rightarrow> bool \<Rightarrow> pstate \<Rightarrow> jsval res" where
  \<comment> \<open>\<open>function_\<close>: the wrapper when \<open>embed_tokens\<close> is set, \<open>$function_\<close> otherwise.\<close>
  "function' rec in_statement S =
     (if embed_tokens S then
        (let start = S_prev S
         in bnd (dollar_function rec in_statement S) (\<lambda>ast S1. set_tag ast start (S_prev S1) S1))
      else dollar_function rec in_statement S)"

definition object_loop :: "parser \<Rightarrow> bool \<Rightarrow> jsval list \<Rightarrow> pstate \<Rightarrow> jsval res" where
  \<comment> \<open>The \<open>while\<close> of \<open>object_\<close> from its test on, with the \<open>next()\<close> and the
     \<open>return\<close> after it.\<close>
  "object_loop rec first a S =
     (if \<not> is_p S ''punc'' (Some ''}'') then
        andthen (if first then ret () S else andthen (expect '','' S) (\<lambda>S1. ret () S1)) (\<lambda>S1.
        if \<not> exigent_mode S1 \<and> is_p S1 ''punc'' (Some ''}'') then
          andthen (next_p S1) (\<lambda>S2. ret (as [JStr ''object'', JArr a]) S2)
        else
          (let type = tok_type (S_token S1)
           in bnd (as_property_name S1) (\<lambda>name S2.
              if type = ''name'' \<and> (name = VStr ''get'' \<or> name = VStr ''set'')
                 \<and> \<not> is_p S2 ''punc'' (Some '':'') then
                bnd (as_name S2) (\<lambda>n2 S3.
                bnd (function' rec False S3) (\<lambda>f S4.
                rec (Object_loop False (a @ [JArr [jsv n2, f, jsv name]])) S4))
              else
                andthen (expect '':'' S2) (\<lambda>S3.
                bnd (rec (Expression False False) S3) (\<lambda>e S4.
                rec (Object_loop False (a @ [JArr [jsv name, e]])) S4)))))
      else andthen (next_p S) (\<lambda>S1. ret (as [JStr ''object'', JArr a]) S1))"

definition object' :: "parser \<Rightarrow> pstate \<Rightarrow> jsval res" where
  "object' rec S = object_loop rec True [] S"

definition new' :: "parser \<Rightarrow> pstate \<Rightarrow> jsval res" where
  "new' rec S =
     bnd (rec (Expr_atom False) S) (\<lambda>newexp S1.
     bnd (if is_p S1 ''punc'' (Some ''('')
          then andthen (next_p S1) (\<lambda>S2. expr_list rec '')'' False False S2)
          else ret (JArr []) S1) (\<lambda>args S3.
     rec (Subscripts (as [JStr ''new'', newexp, args]) True) S3))"

definition expr_atom :: "parser \<Rightarrow> bool \<Rightarrow> pstate \<Rightarrow> jsval res" where
  "expr_atom rec allow_calls S =
     (let type = tok_type (S_token S); val = tok_value (S_token S)
      in if is_p S ''operator'' (Some ''new'') then andthen (next_p S) (\<lambda>S1. new' rec S1)
         else if is_p S ''operator'' None \<and> HOPv UNARY_PREFIX val then
           andthen (next_p S) (\<lambda>S1.
           bnd (rec (Expr_atom allow_calls) S1) (\<lambda>e S2.
           make_unary ''unary-prefix'' val e S2))
         else if is_p S ''punc'' None then
           (if val = VStr ''('' then
              andthen (next_p S) (\<lambda>S1.
              bnd (rec (Expression True False) S1) (\<lambda>e S2.
              andthen (expect '')'' S2) (\<lambda>S3.
              rec (Subscripts e allow_calls) S3)))
            else if val = VStr ''['' then
              andthen (next_p S) (\<lambda>S1.
              bnd (array' rec S1) (\<lambda>e S2. rec (Subscripts e allow_calls) S2))
            else if val = VStr ''{'' then
              andthen (next_p S) (\<lambda>S1.
              bnd (object' rec S1) (\<lambda>e S2. rec (Subscripts e allow_calls) S2))
            else unexpected None S)
         else if is_p S ''keyword'' (Some ''function'') then
           andthen (next_p S) (\<lambda>S1.
           bnd (function' rec False S1) (\<lambda>f S2. rec (Subscripts f allow_calls) S2))
         else if HOP ATOMIC_START_TOKEN type then
           (let atom = (if type = ''regexp''
                        then as [JStr ''regexp'', idx (jsv val) 0, idx (jsv val) 1]
                        else as [JStr type, jsv val])
            in andthen (next_p S) (\<lambda>S1. rec (Subscripts atom allow_calls) S1))
         else unexpected None S)"

definition subscripts :: "parser \<Rightarrow> jsval \<Rightarrow> bool \<Rightarrow> pstate \<Rightarrow> jsval res" where
  "subscripts rec expr allow_calls S =
     (if is_p S ''punc'' (Some ''.'') then
        andthen (next_p S) (\<lambda>S1.
        bnd (as_name S1) (\<lambda>n S2.
        rec (Subscripts (as [JStr ''dot'', expr, jsv n]) allow_calls) S2))
      else if is_p S ''punc'' (Some ''['') then
        andthen (next_p S) (\<lambda>S1.
        bnd (rec (Expression True False) S1) (\<lambda>e S2.
        andthen (expect '']'' S2) (\<lambda>S3.
        rec (Subscripts (as [JStr ''sub'', expr, e]) allow_calls) S3)))
      else if allow_calls \<and> is_p S ''punc'' (Some ''('') then
        andthen (next_p S) (\<lambda>S1.
        bnd (expr_list rec '')'' False False S1) (\<lambda>args S2.
        rec (Subscripts (as [JStr ''call'', expr, args]) True) S2))
      else if allow_calls \<and> is_p S ''operator'' None
              \<and> HOPv UNARY_POSTFIX (tok_value (S_token S)) then
        bnd (make_unary ''unary-postfix'' (tok_value (S_token S)) expr S) (\<lambda>u S1.
        andthen (next_p S1) (\<lambda>S2. ret u S2))
      else ret expr S)"

definition expr_op :: "parser \<Rightarrow> jsval \<Rightarrow> nat \<Rightarrow> bool \<Rightarrow> pstate \<Rightarrow> jsval res" where
  \<comment> \<open>\<open>op\<close> is \<open>None\<close> for \<open>null\<close>; an operator token carries a non-empty string.\<close>
  "expr_op rec left min_prec no_in S =
     (let op = (if is_p S ''operator'' None
                then (case tok_value (S_token S) of VStr s \<Rightarrow> Some s | _ \<Rightarrow> None) else None);
          op1 = (if op = Some ''in'' \<and> no_in then None else op);
          prec = (case op1 of Some s \<Rightarrow> PRECEDENCE s | None \<Rightarrow> None)
      in case (op1, prec) of
           (Some s, Some p) \<Rightarrow>
             if p > min_prec then
               andthen (next_p S) (\<lambda>S1.
               bnd (rec (Expr_atom True) S1) (\<lambda>a S2.
               bnd (rec (Expr_op a p no_in) S2) (\<lambda>right S3.
               rec (Expr_op (as [JStr ''binary'', JStr s, left, right]) min_prec no_in) S3)))
             else ret left S
         | _ \<Rightarrow> ret left S)"

definition expr_ops :: "parser \<Rightarrow> bool \<Rightarrow> pstate \<Rightarrow> jsval res" where
  "expr_ops rec no_in S = bnd (expr_atom rec True S) (\<lambda>a S1. expr_op rec a 0 no_in S1)"

definition maybe_conditional :: "parser \<Rightarrow> bool \<Rightarrow> pstate \<Rightarrow> jsval res" where
  "maybe_conditional rec no_in S =
     bnd (expr_ops rec no_in S) (\<lambda>expr S1.
     if is_p S1 ''operator'' (Some ''?'') then
       andthen (next_p S1) (\<lambda>S2.
       bnd (rec (Expression False False) S2) (\<lambda>yes S3.
       andthen (expect '':'' S3) (\<lambda>S4.
       bnd (rec (Expression False no_in) S4) (\<lambda>no S5.
       ret (as [JStr ''conditional'', expr, yes, no]) S5))))
     else ret expr S1)"

definition maybe_assign :: "parser \<Rightarrow> bool \<Rightarrow> pstate \<Rightarrow> jsval res" where
  "maybe_assign rec no_in S =
     bnd (maybe_conditional rec no_in S) (\<lambda>left S1.
     (let val = tok_value (S_token S1)
      in case (if is_p S1 ''operator'' None
               then (case val of VStr s \<Rightarrow> ASSIGNMENT s | _ \<Rightarrow> None) else None) of
           Some asg \<Rightarrow>
             if is_assignable S1 left then
               andthen (next_p S1) (\<lambda>S2.
               bnd (rec (Maybe_assign no_in) S2) (\<lambda>r S3.
               ret (as [JStr ''assign'', asg, left, r]) S3))
             else croak ''Invalid assignment'' None None None S1
         | None \<Rightarrow> ret left S1))"

definition expression :: "parser \<Rightarrow> bool \<Rightarrow> bool \<Rightarrow> pstate \<Rightarrow> jsval res" where
  \<comment> \<open>\<open>commas\<close> is written out at every call: a call without arguments passes \<open>True\<close>.\<close>
  "expression rec commas no_in S =
     bnd (maybe_assign rec no_in S) (\<lambda>expr S1.
     if commas \<and> is_p S1 ''punc'' (Some '','') then
       andthen (next_p S1) (\<lambda>S2.
       bnd (rec (Expression True no_in) S2) (\<lambda>r S3.
       ret (as [JStr ''seq'', expr, r]) S3))
     else ret expr S1)"

definition simple_statement :: "parser \<Rightarrow> pstate \<Rightarrow> jsval res" where
  "simple_statement rec S =
     bnd (expression rec True False S) (\<lambda>e S1.
     andthen (semicolon S1) (\<lambda>S2. ret (as [JStr ''stat'', e]) S2))"

definition break_cont :: "string \<Rightarrow> pstate \<Rightarrow> jsval res" where
  "break_cont type S =
     (let name = (if is_p S ''name'' None then Some (tok_value (S_token S)) else None)
      in andthen
           (case name of
              Some n \<Rightarrow>
                andthen (next_p S) (\<lambda>S1.
                if \<not> member n (S_labels S1) then
                  croak (''Label '' @ String_of n @ '' without matching loop or statement'')
                    None None None S1
                else ret () S1)
            | None \<Rightarrow>
                if S_in_loop S = 0 then
                  croak (type @ '' not inside a loop or switch'') None None None S
                else ret () S) (\<lambda>S2.
         andthen (semicolon S2) (\<lambda>S3.
         ret (as [JStr type, (case name of Some n \<Rightarrow> jsv n | None \<Rightarrow> JNull)]) S3)))"

definition labeled_statement :: "parser \<Rightarrow> tokval \<Rightarrow> pstate \<Rightarrow> jsval res" where
  \<comment> \<open>\<open>stat[0]\<close> is read only in exigent mode; on \<open>undefined\<close> it is a \<open>TypeError\<close>.\<close>
  "labeled_statement rec label S =
     (let S1 = S\<lparr>S_labels := S_labels S @ [label]\<rparr>;
          start = S_token S1
      in bnd (rec Statement S1) (\<lambda>stat S2.
         andthen
           (if exigent_mode S2 then
              (case stat of
                 JArr xs \<Rightarrow>
                   if \<not> (case tag_string (idx stat 0) of
                            Some t \<Rightarrow> HOP STATEMENTS_WITH_LABELS t | None \<Rightarrow> False)
                   then unexpected (Some start) S2 else ret () S2
               | _ \<Rightarrow> throw TypeError)
            else ret () S2) (\<lambda>S3.
         ret (as [JStr ''label'', jsv label, stat]) (S3\<lparr>S_labels := butlast (S_labels S3)\<rparr>))))"

definition regular_for :: "parser \<Rightarrow> jsval \<Rightarrow> pstate \<Rightarrow> jsval res" where
  "regular_for rec init S =
     andthen (expect '';'' S) (\<lambda>S1.
     bnd (if is_p S1 ''punc'' (Some '';'') then ret JNull S1
          else rec (Expression True False) S1) (\<lambda>test S2.
     andthen (expect '';'' S2) (\<lambda>S3.
     bnd (if is_p S3 ''punc'' (Some '')'') then ret JNull S3
          else rec (Expression True False) S3) (\<lambda>step S4.
     andthen (expect '')'' S4) (\<lambda>S5.
     bnd (in_loop (rec Statement) S5) (\<lambda>body S6.
     ret (as [JStr ''for'', init, test, step, body]) S6))))))"

definition for_in :: "parser \<Rightarrow> jsval \<Rightarrow> pstate \<Rightarrow> jsval res" where
  \<comment> \<open>\<open>init[0] == "var"\<close> compares after string conversion of the tag.\<close>
  "for_in rec init S =
     (let lhs = (if tag_string (idx init 0) = Some ''var''
                 then as [JStr ''name'', idx (idx init 1) 0] else init)
      in andthen (next_p S) (\<lambda>S1.
         bnd (rec (Expression True False) S1) (\<lambda>obj S2.
         andthen (expect '')'' S2) (\<lambda>S3.
         bnd (in_loop (rec Statement) S3) (\<lambda>body S4.
         ret (as [JStr ''for-in'', init, lhs, obj, body]) S4)))))"

definition for' :: "parser \<Rightarrow> pstate \<Rightarrow> jsval res" where
  "for' rec S =
     andthen (expect ''('' S) (\<lambda>S1.
     if \<not> is_p S1 ''punc'' (Some '';'') then
       bnd (if is_p S1 ''keyword'' (Some ''var'')
            then andthen (next_p S1) (\<lambda>S2. var' rec True S2)
            else rec (Expression True True) S1) (\<lambda>init S3.
       if is_p S3 ''operator'' (Some ''in'') then for_in rec init S3
       else regular_for rec init S3)
     else regular_for rec JNull S1)"

definition if' :: "parser \<Rightarrow> pstate \<Rightarrow> jsval res" where
  \<comment> \<open>\<open>belse\<close> stays \<open>undefined\<close> without an \<open>else\<close>.\<close>
  "if' rec S =
     bnd (parenthesised rec S) (\<lambda>cond S1.
     bnd (rec Statement S1) (\<lambda>body S2.
     bnd (if is_p S2 ''keyword'' (Some ''else'')
          then andthen (next_p S2) (\<lambda>S3. rec Statement S3)
          else ret JUndef S2) (\<lambda>belse S4.
     ret (as [JStr ''if'', cond, body, belse]) S4)))"

definition push_cur :: "jsval list \<Rightarrow> jsval \<Rightarrow> jsval list" where
  \<comment> \<open>\<open>cur.push(st)\<close>: \<open>cur\<close> is the array that is the second element of the last
     entry of \<open>a\<close>.\<close>
  "push_cur a st =
     (case rev a of
        JArr [e, JArr cur] # r \<Rightarrow> rev r @ [JArr [e, JArr (cur @ [st])]]
      | _ \<Rightarrow> a)"

definition switch_loop :: "parser \<Rightarrow> jsval list \<Rightarrow> bool \<Rightarrow> pstate \<Rightarrow> jsval res" where
  \<comment> \<open>The \<open>while\<close> of the switch block from its test on, and the \<open>next()\<close> after it;
     \<open>cur\<close> tells whether the variable \<open>cur\<close> is set.\<close>
  "switch_loop rec a cur S =
     (if \<not> is_p S ''punc'' (Some ''}'') then
        (if is_p S ''eof'' None then unexpected None S
         else if is_p S ''keyword'' (Some ''case'') then
           andthen (next_p S) (\<lambda>S1.
           bnd (rec (Expression True False) S1) (\<lambda>e S2.
           andthen (expect '':'' S2) (\<lambda>S3.
           rec (Switch_loop (a @ [JArr [e, JArr []]]) True) S3)))
         else if is_p S ''keyword'' (Some ''default'') then
           andthen (next_p S) (\<lambda>S1.
           andthen (expect '':'' S1) (\<lambda>S2.
           rec (Switch_loop (a @ [JArr [JNull, JArr []]]) True) S2))
         else if \<not> cur then unexpected None S
         else bnd (rec Statement S) (\<lambda>st S1. rec (Switch_loop (push_cur a st) True) S1))
      else andthen (next_p S) (\<lambda>S1. ret (JArr a) S1))"

definition switch_block' :: "parser \<Rightarrow> pstate \<Rightarrow> jsval res" where
  "switch_block' rec S =
     in_loop (\<lambda>S0. andthen (expect ''{'' S0) (\<lambda>S1. switch_loop rec [] False S1)) S"

definition try' :: "parser \<Rightarrow> pstate \<Rightarrow> jsval res" where
  \<comment> \<open>\<open>bcatch\<close> and \<open>bfinally\<close> stay \<open>undefined\<close> when their clause is missing; an
     array, also an empty one, is true.\<close>
  "try' rec S =
     bnd (block' rec S) (\<lambda>body S1.
     bnd (if is_p S1 ''keyword'' (Some ''catch'') then
            andthen (next_p S1) (\<lambda>S2.
            andthen (expect ''('' S2) (\<lambda>S3.
            if \<not> is_p S3 ''name'' None then croak ''Name expected'' None None None S3
            else
              (let name = tok_value (S_token S3)
               in andthen (next_p S3) (\<lambda>S4.
                  andthen (expect '')'' S4) (\<lambda>S5.
                  bnd (block' rec S5) (\<lambda>b S6. ret (JArr [jsv name, b]) S6))))))
          else ret JUndef S1) (\<lambda>bcatch S7.
     bnd (if is_p S7 ''keyword'' (Some ''finally'')
          then andthen (next_p S7) (\<lambda>S8. block' rec S8)
          else ret JUndef S7) (\<lambda>bfinally S9.
     if bcatch = JUndef \<and> bfinally = JUndef
     then croak ''Missing catch/finally blocks'' None None None S9
     else ret (as [JStr ''try'', body, bcatch, bfinally]) S9)))"

definition dollar_statement :: "parser \<Rightarrow> pstate \<Rightarrow> jsval res" where
  \<comment> \<open>\<open>$statement\<close>. A token type with no \<open>case\<close> falls out of the \<open>switch\<close>, and the
     function returns \<open>undefined\<close>.\<close>
  "dollar_statement rec S =
     andthen (if is_p S ''operator'' (Some ''/'')
              then bnd (input True (S\<lparr>S_peeked := None\<rparr>)) (\<lambda>t S1. ret () (S1\<lparr>S_token := t\<rparr>))
              else ret () S) (\<lambda>S0.
     (let type = tok_type (S_token S0); val = tok_value (S_token S0)
      in if type \<in> set [''num'', ''string'', ''regexp'', ''operator'', ''atom''] then
           simple_statement rec S0
         else if type = ''name'' then
           bnd (peek_p S0) (\<lambda>pk S1.
           if is_token pk ''punc'' (Some '':'') then
             andthen (next_p S1) (\<lambda>S2.
             andthen (next_p S2) (\<lambda>S3. labeled_statement rec val S3))
           else simple_statement rec S1)
         else if type = ''punc'' then
           (if val = VStr ''{'' then bnd (block' rec S0) (\<lambda>b S1. ret (as [JStr ''block'', b]) S1)
            else if val = VStr ''['' \<or> val = VStr ''('' then simple_statement rec S0
            else if val = VStr '';'' then andthen (next_p S0) (\<lambda>S1. ret (as [JStr ''block'']) S1)
            else unexpected None S0)
         else if type = ''keyword'' then
           andthen (next_p S0) (\<lambda>S1.
           if val = VStr ''break'' then break_cont ''break'' S1
           else if val = VStr ''continue'' then break_cont ''continue'' S1
           else if val = VStr ''debugger'' then
             andthen (semicolon S1) (\<lambda>S2. ret (as [JStr ''debugger'']) S2)
           else if val = VStr ''do'' then
             bnd (in_loop (rec Statement) S1) (\<lambda>body S2.
             andthen (expect_token ''keyword'' (Some ''while'') S2) (\<lambda>S3.
             bnd (parenthesised rec S3) (\<lambda>cond S4.
             andthen (semicolon S4) (\<lambda>S5. ret (as [JStr ''do'', cond, body]) S5))))
           else if val = VStr ''for'' then for' rec S1
           else if val = VStr ''function'' then function' rec True S1
           else if val = VStr ''if'' then if' rec S1
           else if val = VStr ''return'' then
             (if S_in_function S1 = 0
              then croak (CHR 0x27 # ''return'' @ CHR 0x27 # '' outside of function'')
                     None None None S1
              else
                bnd (if is_p S1 ''punc'' (Some '';'') then andthen (next_p S1) (\<lambda>S2. ret JNull S2)
                     else if can_insert_semicolon S1 then ret JNull S1
                     else bnd (expression rec True False S1) (\<lambda>e S2.
                          andthen (semicolon S2) (\<lambda>S3. ret e S3))) (\<lambda>v S4.
                ret (as [JStr ''return'', v]) S4))
           else if val = VStr ''switch'' then
             bnd (parenthesised rec S1) (\<lambda>d S2.
             bnd (switch_block' rec S2) (\<lambda>b S3. ret (as [JStr ''switch'', d, b]) S3))
           else if val = VStr ''throw'' then
             bnd (expression rec True False S1) (\<lambda>e S2.
             andthen (semicolon S2) (\<lambda>S3. ret (as [JStr ''throw'', e]) S3))
           else if val = VStr ''try'' then try' rec S1
           else if val = VStr ''var'' then
             bnd (var' rec False S1) (\<lambda>v S2. andthen (semicolon S2) (\<lambda>S3. ret v S3))
           else if val = VStr ''const'' then
             bnd (const' rec S1) (\<lambda>v S2. andthen (semicolon S2) (\<lambda>S3. ret v S3))
           else if val = VStr ''while'' then
             bnd (parenthesised rec S1) (\<lambda>cond S2.
             bnd (in_loop (rec Statement) S2) (\<lambda>body S3. ret (as [JStr ''while'', cond, body]) S3))
           else if val = VStr ''with'' then
             bnd (parenthesised rec S1) (\<lambda>ex S2.
             bnd (rec Statement S2) (\<lambda>body S3. ret (as [JStr ''with'', ex, body]) S3))
           else unexpected None S1)
         else ret JUndef S0))"

definition statement :: "parser \<Rightarrow> pstate \<Rightarrow> jsval res" where
  \<comment> \<open>\<open>statement\<close>: the wrapper when \<open>embed_tokens\<close> is set, \<open>$statement\<close> otherwise.\<close>
  "statement rec S =
     (if embed_tokens S then
        (let start = S_token S
         in bnd (dollar_statement rec S) (\<lambda>ast S1. set_tag ast (Some start) (S_prev S1) S1))
      else dollar_statement rec S)"

definition toplevel_loop :: "parser \<Rightarrow> jsval list \<Rightarrow> pstate \<Rightarrow> jsval res" where
  \<comment> \<open>The \<open>while\<close> at the end of \<open>parse\<close>, and the \<open>toplevel\<close> node built from its
     list.\<close>
  "toplevel_loop rec a S =
     (if \<not> is_p S ''eof'' None
      then bnd (rec Statement S) (\<lambda>st S1. rec (Toplevel_loop (a @ [st])) S1)
      else ret (as [JStr ''toplevel'', JArr a]) S)"

definition step :: "parser \<Rightarrow> call \<Rightarrow> pstate \<Rightarrow> jsval res" where
  \<comment> \<open>One call, given the parser for the calls it makes.\<close>
  "step rec c S =
     (case c of
        Statement \<Rightarrow> statement rec S
      | Expression commas no_in \<Rightarrow> expression rec commas no_in S
      | Maybe_assign no_in \<Rightarrow> maybe_assign rec no_in S
      | Expr_op left min_prec no_in \<Rightarrow> expr_op rec left min_prec no_in S
      | Expr_atom allow_calls \<Rightarrow> expr_atom rec allow_calls S
      | Subscripts expr allow_calls \<Rightarrow> subscripts rec expr allow_calls S
      | Expr_list_loop closing atc ae first a \<Rightarrow> expr_list_loop rec closing atc ae first a S
      | Object_loop first a \<Rightarrow> object_loop rec first a S
      | Function_args_loop first a \<Rightarrow> function_args_loop rec first a S
      | Block_loop a \<Rightarrow> block_loop rec a S
      | Switch_loop a cur \<Rightarrow> switch_loop rec a cur S
      | Vardefs_loop no_in a \<Rightarrow> vardefs_loop rec no_in a S
      | Toplevel_loop a \<Rightarrow> toplevel_loop rec a S)"

primrec run :: "nat \<Rightarrow> call \<Rightarrow> pstate \<Rightarrow> jsval res" where
  \<comment> \<open>The parser with \<open>n\<close> units of fuel: \<open>None\<close> when they do not suffice.\<close>
  "run 0 = (\<lambda>c S. None)"
| "run (Suc n) = step (run n)"

definition parse :: "nat \<Rightarrow> string \<Rightarrow> bool \<Rightarrow> bool \<Rightarrow> (exn + jsval) option" where
  \<comment> \<open>\<open>parse($TEXT, exigent_mode, embed_tokens)\<close> on a string, with \<open>n\<close> units of fuel.
     The first \<open>next()\<close> finds no peeked token and stores the \<open>null\<close> token as \<open>prev\<close>.\<close>
  "parse n TEXT exigent emb =
     (case next_token False (tokenizer TEXT) of
        Inl e \<Rightarrow> Some (Inl e)
      | Inr (t, sc) \<Rightarrow>
          (case toplevel_loop (run n) []
                  \<lparr>S_input = sc, S_token = t, S_prev = None, S_peeked = None,
                   S_in_function = 0, S_in_loop = 0, S_labels = [],
                   exigent_mode = exigent, embed_tokens = emb\<rparr> of
             None \<Rightarrow> None
           | Some (Inl e) \<Rightarrow> Some (Inl e)
           | Some (Inr (ast, S)) \<Rightarrow> Some (Inr ast)))"

subsection \<open>Notions used in the properties\<close>

definition res_le :: "'a res \<Rightarrow> 'a res \<Rightarrow> bool" where
  \<comment> \<open>The second result is the first, unless the first ran out of fuel.\<close>
  "res_le a b = (a = None \<or> a = b)"

definition spec_regex_allowed_after :: "token \<Rightarrow> bool" where
  \<comment> \<open>The rule in the words of the specification: an operator that is not \<open>++\<close> or
     \<open>--\<close>, one of six keywords, or one of eight punctuation characters.\<close>
  "spec_regex_allowed_after t =
     ((tok_type t = ''operator'' \<and> tok_value t \<noteq> VStr ''++'' \<and> tok_value t \<noteq> VStr ''--'')
      \<or> (tok_type t = ''keyword''
          \<and> tok_value t \<in> set (map VStr [''return'', ''new'', ''delete'', ''throw'', ''else'', ''case'']))
      \<or> (tok_type t = ''punc''
          \<and> tok_value t \<in> set (map VStr [''['', ''{'', ''}'', ''('', '','', ''.'', '';'', '':''])))"

definition comment_step :: "scanner \<Rightarrow> scanner option" where
  \<comment> \<open>The part of \<open>next_token\<close> and \<open>handle_slash\<close> that reads one comment: the state
     that \<open>handle_slash\<close> hands to its recursive call of \<open>next_token\<close>, when
     \<open>next_token\<close> on \<open>S\<close> finds a comment after the blanks; \<open>None\<close> when it finds no
     comment, or one that does not end.\<close>
  "comment_step S =
     (let S1 = start_token (skip_whitespace S)
      in if peek S1 \<noteq> Some (CHR ''/'') then None
         else
           (let S2 = snd (next_ch S1);
                regex_allowed0 = regex_allowed S2
            in if peek S2 = Some (CHR ''/'') then
                 (case read_line_comment S2 of
                    (c, S3) \<Rightarrow> Some (S3\<lparr>comments_before := comments_before S3 @ [c],
                                         regex_allowed := regex_allowed0\<rparr>))
               else if peek S2 = Some (CHR ''*'') then
                 (case read_multiline_comment S2 of
                    Inl e \<Rightarrow> None
                  | Inr (c, S3) \<Rightarrow> Some (S3\<lparr>comments_before := comments_before S3 @ [c],
                                              regex_allowed := regex_allowed0\<rparr>))
               else None))"

fun comment_steps :: "nat \<Rightarrow> scanner \<Rightarrow> scanner option" where
  \<comment> \<open>\<open>n\<close> comments in a row.\<close>
  "comment_steps 0 S = Some S"
| "comment_steps (Suc n) S =
     (case comment_step S of None \<Rightarrow> None | Some S1 \<Rightarrow> comment_steps n S1)"

section \<open>Properties\<close>

subsection \<open>Rendering a parse error\<close>

lemma digit_val_char_of: "d < 10 \<Longrightarrow> digit_val (char_of (48 + d)) = d"
  by (simp add: digit_val_def in_range_def charCode_def)

lemma string_of_nat_value:
  "foldl (\<lambda>a c. a * 10 + digit_val c) 0 (string_of_nat n) = n"
proof (induction n rule: string_of_nat.induct)
  case (1 n)
  show ?case
  proof (cases "n < 10")
    case True
    then show ?thesis by (subst string_of_nat.simps) (simp add: digit_val_char_of)
  next
    case False
    with 1 show ?thesis by (subst string_of_nat.simps) (simp add: digit_val_char_of)
  qed
qed

text \<open>
  C9 (as amended). The claim reads: rendering a ParseError with message m, line L, column C
  and position P yields exactly "m (line: L, col: C, pos: P)" and nothing more. The code
  appends two newlines and the stack text captured by the constructor, so the claimed
  string is only the beginning of the rendering: for every error object,
  \<open>toString\<close> is the message, the position in the claimed format, two newlines and the
  stack.
\<close>

theorem toString_is_position_then_stack:
  "toString (new_JS_Parse_Error stk m L C P) =
     (m @ '' (line: '' @ string_of_nat L @ '', col: '' @ string_of_nat C
        @ '', pos: '' @ string_of_nat P @ '')'') @ ''\<newline>\<newline>'' @ stk"
  by (simp add: toString_def new_JS_Parse_Error_def)

theorem toString_is_position_then_stack_witness:
  "toString (new_JS_Parse_Error ''at parse'' ''Invalid assignment'' 0 12 345) =
     ''Invalid assignment (line: 0, col: 12, pos: 345)\<newline>\<newline>at parse''"
proof -
  have e: "string_of_nat 0 = ''0''" "string_of_nat 12 = ''12''" "string_of_nat 345 = ''345''"
    by code_simp+
  show ?thesis
    using toString_is_position_then_stack [of "''at parse''" "''Invalid assignment''" 0 12 345]
    by (simp add: e)
qed

text \<open>
  C9, the claim as stated, fails: even with an empty stack text the rendering of the error
  "Invalid assignment" at line 0, column 2, position 2 is not the claimed string (it ends
  with two newlines).
\<close>

theorem toString_not_only_position_counterexample:
  "toString (new_JS_Parse_Error [] ''Invalid assignment'' 0 2 2) \<noteq>
     ''Invalid assignment (line: 0, col: 2, pos: 2)''"
  by code_simp

subsection \<open>Fuel\<close>

text \<open>
  More fuel never changes a result: every parser function is monotone in the parser it
  calls, so a parse that returns with \<open>n\<close> units returns the same with any \<open>m \<ge> n\<close>.
\<close>

lemma res_le_refl: "res_le a a"
  by (simp add: res_le_def)

lemma bnd_mono:
  "res_le m m' \<Longrightarrow> (\<And>x S. res_le (f x S) (f' x S)) \<Longrightarrow> res_le (bnd m f) (bnd m' f')"
  by (auto simp: res_le_def bnd_def split: option.splits sum.splits)

lemma andthen_mono:
  "res_le m m' \<Longrightarrow> (\<And>S. res_le (f S) (f' S)) \<Longrightarrow> res_le (andthen m f) (andthen m' f')"
  unfolding andthen_def by (rule bnd_mono)

lemma if_mono:
  "(c \<Longrightarrow> res_le a a') \<Longrightarrow> (\<not> c \<Longrightarrow> res_le b b') \<Longrightarrow>
     res_le (if c then a else b) (if c then a' else b')"
  by simp

lemma in_loop_mono:
  "(\<And>S. res_le (f S) (f' S)) \<Longrightarrow> res_le (in_loop f S) (in_loop f' S)"
  unfolding in_loop_def by (intro bnd_mono res_le_refl)

lemma option_case_mono:
  "(x = None \<Longrightarrow> res_le a a') \<Longrightarrow> (\<And>y. x = Some y \<Longrightarrow> res_le (f y) (f' y)) \<Longrightarrow>
     res_le (case x of None \<Rightarrow> a | Some y \<Rightarrow> f y) (case x of None \<Rightarrow> a' | Some y \<Rightarrow> f' y)"
  by (cases x) simp_all

lemmas mono_rules = res_le_refl bnd_mono andthen_mono if_mono in_loop_mono option_case_mono

lemma parenthesised_mono:
  assumes r: "\<And>c S. res_le (r c S) (r' c S)"
  shows "res_le (parenthesised r  S) (parenthesised r'  S)"
  unfolding parenthesised_def Let_def
  by (auto split: prod.splits option.splits intro!: mono_rules  r)

lemma vardefs_loop_mono:
  assumes r: "\<And>c S. res_le (r c S) (r' c S)"
  shows "res_le (vardefs_loop r n a S) (vardefs_loop r' n a S)"
  unfolding vardefs_loop_def Let_def
  by (auto split: prod.splits option.splits intro!: mono_rules parenthesised_mono r)

lemma vardefs_mono:
  assumes r: "\<And>c S. res_le (r c S) (r' c S)"
  shows "res_le (vardefs r n S) (vardefs r' n S)"
  unfolding vardefs_def Let_def
  by (auto split: prod.splits option.splits intro!: mono_rules parenthesised_mono vardefs_loop_mono r)

lemma var_p_mono:
  assumes r: "\<And>c S. res_le (r c S) (r' c S)"
  shows "res_le (var' r n S) (var' r' n S)"
  unfolding var'_def Let_def
  by (auto split: prod.splits option.splits intro!: mono_rules parenthesised_mono vardefs_loop_mono vardefs_mono r)

lemma const_p_mono:
  assumes r: "\<And>c S. res_le (r c S) (r' c S)"
  shows "res_le (const' r  S) (const' r'  S)"
  unfolding const'_def Let_def
  by (auto split: prod.splits option.splits intro!: mono_rules parenthesised_mono vardefs_loop_mono vardefs_mono var_p_mono r)

lemma expr_list_loop_mono:
  assumes r: "\<And>c S. res_le (r c S) (r' c S)"
  shows "res_le (expr_list_loop r cl atc ae first a S) (expr_list_loop r' cl atc ae first a S)"
  unfolding expr_list_loop_def Let_def
  by (auto split: prod.splits option.splits intro!: mono_rules parenthesised_mono vardefs_loop_mono vardefs_mono var_p_mono const_p_mono r)

lemma expr_list_mono:
  assumes r: "\<And>c S. res_le (r c S) (r' c S)"
  shows "res_le (expr_list r cl atc ae S) (expr_list r' cl atc ae S)"
  unfolding expr_list_def Let_def
  by (auto split: prod.splits option.splits intro!: mono_rules parenthesised_mono vardefs_loop_mono vardefs_mono var_p_mono const_p_mono expr_list_loop_mono r)

lemma array_p_mono:
  assumes r: "\<And>c S. res_le (r c S) (r' c S)"
  shows "res_le (array' r  S) (array' r'  S)"
  unfolding array'_def Let_def
  by (auto split: prod.splits option.splits intro!: mono_rules parenthesised_mono vardefs_loop_mono vardefs_mono var_p_mono const_p_mono expr_list_loop_mono expr_list_mono r)

lemma block_loop_mono:
  assumes r: "\<And>c S. res_le (r c S) (r' c S)"
  shows "res_le (block_loop r a S) (block_loop r' a S)"
  unfolding block_loop_def Let_def
  by (auto split: prod.splits option.splits intro!: mono_rules parenthesised_mono vardefs_loop_mono vardefs_mono var_p_mono const_p_mono expr_list_loop_mono expr_list_mono array_p_mono r)

lemma block_p_mono:
  assumes r: "\<And>c S. res_le (r c S) (r' c S)"
  shows "res_le (block' r  S) (block' r'  S)"
  unfolding block'_def Let_def
  by (auto split: prod.splits option.splits intro!: mono_rules parenthesised_mono vardefs_loop_mono vardefs_mono var_p_mono const_p_mono expr_list_loop_mono expr_list_mono array_p_mono block_loop_mono r)

lemma function_args_loop_mono:
  assumes r: "\<And>c S. res_le (r c S) (r' c S)"
  shows "res_le (function_args_loop r first a S) (function_args_loop r' first a S)"
  unfolding function_args_loop_def Let_def
  by (auto split: prod.splits option.splits intro!: mono_rules parenthesised_mono vardefs_loop_mono vardefs_mono var_p_mono const_p_mono expr_list_loop_mono expr_list_mono array_p_mono block_loop_mono block_p_mono r)

lemma dollar_function_mono:
  assumes r: "\<And>c S. res_le (r c S) (r' c S)"
  shows "res_le (dollar_function r ins S) (dollar_function r' ins S)"
  unfolding dollar_function_def Let_def
  by (auto split: prod.splits option.splits intro!: mono_rules parenthesised_mono vardefs_loop_mono vardefs_mono var_p_mono const_p_mono expr_list_loop_mono expr_list_mono array_p_mono block_loop_mono block_p_mono function_args_loop_mono r)

lemma function_p_mono:
  assumes r: "\<And>c S. res_le (r c S) (r' c S)"
  shows "res_le (function' r ins S) (function' r' ins S)"
  unfolding function'_def Let_def
  by (auto split: prod.splits option.splits intro!: mono_rules parenthesised_mono vardefs_loop_mono vardefs_mono var_p_mono const_p_mono expr_list_loop_mono expr_list_mono array_p_mono block_loop_mono block_p_mono function_args_loop_mono dollar_function_mono r)

lemma object_loop_mono:
  assumes r: "\<And>c S. res_le (r c S) (r' c S)"
  shows "res_le (object_loop r first a S) (object_loop r' first a S)"
  unfolding object_loop_def Let_def
  by (auto split: prod.splits option.splits intro!: mono_rules parenthesised_mono vardefs_loop_mono vardefs_mono var_p_mono const_p_mono expr_list_loop_mono expr_list_mono array_p_mono block_loop_mono block_p_mono function_args_loop_mono dollar_function_mono function_p_mono r)

lemma object_p_mono:
  assumes r: "\<And>c S. res_le (r c S) (r' c S)"
  shows "res_le (object' r  S) (object' r'  S)"
  unfolding object'_def Let_def
  by (auto split: prod.splits option.splits intro!: mono_rules parenthesised_mono vardefs_loop_mono vardefs_mono var_p_mono const_p_mono expr_list_loop_mono expr_list_mono array_p_mono block_loop_mono block_p_mono function_args_loop_mono dollar_function_mono function_p_mono object_loop_mono r)

lemma new_p_mono:
  assumes r: "\<And>c S. res_le (r c S) (r' c S)"
  shows "res_le (new' r  S) (new' r'  S)"
  unfolding new'_def Let_def
  by (auto split: prod.splits option.splits intro!: mono_rules parenthesised_mono vardefs_loop_mono vardefs_mono var_p_mono const_p_mono expr_list_loop_mono expr_list_mono array_p_mono block_loop_mono block_p_mono function_args_loop_mono dollar_function_mono function_p_mono object_loop_mono object_p_mono r)

lemma expr_atom_mono:
  assumes r: "\<And>c S. res_le (r c S) (r' c S)"
  shows "res_le (expr_atom r ac S) (expr_atom r' ac S)"
  unfolding expr_atom_def Let_def
  by (auto split: prod.splits option.splits intro!: mono_rules parenthesised_mono vardefs_loop_mono vardefs_mono var_p_mono const_p_mono expr_list_loop_mono expr_list_mono array_p_mono block_loop_mono block_p_mono function_args_loop_mono dollar_function_mono function_p_mono object_loop_mono object_p_mono new_p_mono r)

lemma subscripts_mono:
  assumes r: "\<And>c S. res_le (r c S) (r' c S)"
  shows "res_le (subscripts r e ac S) (subscripts r' e ac S)"
  unfolding subscripts_def Let_def
  by (auto split: prod.splits option.splits intro!: mono_rules parenthesised_mono vardefs_loop_mono vardefs_mono var_p_mono const_p_mono expr_list_loop_mono expr_list_mono array_p_mono block_loop_mono block_p_mono function_args_loop_mono dollar_function_mono function_p_mono object_loop_mono object_p_mono new_p_mono expr_atom_mono r)

lemma expr_op_mono:
  assumes r: "\<And>c S. res_le (r c S) (r' c S)"
  shows "res_le (expr_op r l m n S) (expr_op r' l m n S)"
  unfolding expr_op_def Let_def
  by (auto split: prod.splits option.splits intro!: mono_rules parenthesised_mono vardefs_loop_mono vardefs_mono var_p_mono const_p_mono expr_list_loop_mono expr_list_mono array_p_mono block_loop_mono block_p_mono function_args_loop_mono dollar_function_mono function_p_mono object_loop_mono object_p_mono new_p_mono expr_atom_mono subscripts_mono r)

lemma expr_ops_mono:
  assumes r: "\<And>c S. res_le (r c S) (r' c S)"
  shows "res_le (expr_ops r n S) (expr_ops r' n S)"
  unfolding expr_ops_def Let_def
  by (auto split: prod.splits option.splits intro!: mono_rules parenthesised_mono vardefs_loop_mono vardefs_mono var_p_mono const_p_mono expr_list_loop_mono expr_list_mono array_p_mono block_loop_mono block_p_mono function_args_loop_mono dollar_function_mono function_p_mono object_loop_mono object_p_mono new_p_mono expr_atom_mono subscripts_mono expr_op_mono r)

lemma maybe_conditional_mono:
  assumes r: "\<And>c S. res_le (r c S) (r' c S)"
  shows "res_le (maybe_conditional r n S) (maybe_conditional r' n S)"
  unfolding maybe_conditional_def Let_def
  by (auto split: prod.splits option.splits intro!: mono_rules parenthesised_mono vardefs_loop_mono vardefs_mono var_p_mono const_p_mono expr_list_loop_mono expr_list_mono array_p_mono block_loop_mono block_p_mono function_args_loop_mono dollar_function_mono function_p_mono object_loop_mono object_p_mono new_p_mono expr_atom_mono subscripts_mono expr_op_mono expr_ops_mono r)

lemma maybe_assign_mono:
  assumes r: "\<And>c S. res_le (r c S) (r' c S)"
  shows "res_le (maybe_assign r n S) (maybe_assign r' n S)"
  unfolding maybe_assign_def Let_def
  by (auto split: prod.splits option.splits intro!: mono_rules parenthesised_mono vardefs_loop_mono vardefs_mono var_p_mono const_p_mono expr_list_loop_mono expr_list_mono array_p_mono block_loop_mono block_p_mono function_args_loop_mono dollar_function_mono function_p_mono object_loop_mono object_p_mono new_p_mono expr_atom_mono subscripts_mono expr_op_mono expr_ops_mono maybe_conditional_mono r)

lemma expression_mono:
  assumes r: "\<And>c S. res_le (r c S) (r' c S)"
  shows "res_le (expression r cm n S) (expression r' cm n S)"
  unfolding expression_def Let_def
  by (auto split: prod.splits option.splits intro!: mono_rules parenthesised_mono vardefs_loop_mono vardefs_mono var_p_mono const_p_mono expr_list_loop_mono expr_list_mono array_p_mono block_loop_mono block_p_mono function_args_loop_mono dollar_function_mono function_p_mono object_loop_mono object_p_mono new_p_mono expr_atom_mono subscripts_mono expr_op_mono expr_ops_mono maybe_conditional_mono maybe_assign_mono r)

lemma simple_statement_mono:
  assumes r: "\<And>c S. res_le (r c S) (r' c S)"
  shows "res_le (simple_statement r  S) (simple_statement r'  S)"
  unfolding simple_statement_def Let_def
  by (auto split: prod.splits option.splits intro!: mono_rules parenthesised_mono vardefs_loop_mono vardefs_mono var_p_mono const_p_mono expr_list_loop_mono expr_list_mono array_p_mono block_loop_mono block_p_mono function_args_loop_mono dollar_function_mono function_p_mono object_loop_mono object_p_mono new_p_mono expr_atom_mono subscripts_mono expr_op_mono expr_ops_mono maybe_conditional_mono maybe_assign_mono expression_mono r)

lemma labeled_statement_mono:
  assumes r: "\<And>c S. res_le (r c S) (r' c S)"
  shows "res_le (labeled_statement r lb S) (labeled_statement r' lb S)"
  unfolding labeled_statement_def Let_def
  by (auto split: prod.splits option.splits intro!: mono_rules parenthesised_mono vardefs_loop_mono vardefs_mono var_p_mono const_p_mono expr_list_loop_mono expr_list_mono array_p_mono block_loop_mono block_p_mono function_args_loop_mono dollar_function_mono function_p_mono object_loop_mono object_p_mono new_p_mono expr_atom_mono subscripts_mono expr_op_mono expr_ops_mono maybe_conditional_mono maybe_assign_mono expression_mono simple_statement_mono r)

lemma regular_for_mono:
  assumes r: "\<And>c S. res_le (r c S) (r' c S)"
  shows "res_le (regular_for r ini S) (regular_for r' ini S)"
  unfolding regular_for_def Let_def
  by (auto split: prod.splits option.splits intro!: mono_rules parenthesised_mono vardefs_loop_mono vardefs_mono var_p_mono const_p_mono expr_list_loop_mono expr_list_mono array_p_mono block_loop_mono block_p_mono function_args_loop_mono dollar_function_mono function_p_mono object_loop_mono object_p_mono new_p_mono expr_atom_mono subscripts_mono expr_op_mono expr_ops_mono maybe_conditional_mono maybe_assign_mono expression_mono simple_statement_mono labeled_statement_mono r)

lemma for_in_mono:
  assumes r: "\<And>c S. res_le (r c S) (r' c S)"
  shows "res_le (for_in r ini S) (for_in r' ini S)"
  unfolding for_in_def Let_def
  by (auto split: prod.splits option.splits intro!: mono_rules parenthesised_mono vardefs_loop_mono vardefs_mono var_p_mono const_p_mono expr_list_loop_mono expr_list_mono array_p_mono block_loop_mono block_p_mono function_args_loop_mono dollar_function_mono function_p_mono object_loop_mono object_p_mono new_p_mono expr_atom_mono subscripts_mono expr_op_mono expr_ops_mono maybe_conditional_mono maybe_assign_mono expression_mono simple_statement_mono labeled_statement_mono regular_for_mono r)

lemma for_p_mono:
  assumes r: "\<And>c S. res_le (r c S) (r' c S)"
  shows "res_le (for' r  S) (for' r'  S)"
  unfolding for'_def Let_def
  by (auto split: prod.splits option.splits intro!: mono_rules parenthesised_mono vardefs_loop_mono vardefs_mono var_p_mono const_p_mono expr_list_loop_mono expr_list_mono array_p_mono block_loop_mono block_p_mono function_args_loop_mono dollar_function_mono function_p_mono object_loop_mono object_p_mono new_p_mono expr_atom_mono subscripts_mono expr_op_mono expr_ops_mono maybe_conditional_mono maybe_assign_mono expression_mono simple_statement_mono labeled_statement_mono regular_for_mono for_in_mono r)

lemma if_p_mono:
  assumes r: "\<And>c S. res_le (r c S) (r' c S)"
  shows "res_le (if' r  S) (if' r'  S)"
  unfolding if'_def Let_def
  by (auto split: prod.splits option.splits intro!: mono_rules parenthesised_mono vardefs_loop_mono vardefs_mono var_p_mono const_p_mono expr_list_loop_mono expr_list_mono array_p_mono block_loop_mono block_p_mono function_args_loop_mono dollar_function_mono function_p_mono object_loop_mono object_p_mono new_p_mono expr_atom_mono subscripts_mono expr_op_mono expr_ops_mono maybe_conditional_mono maybe_assign_mono expression_mono simple_statement_mono labeled_statement_mono regular_for_mono for_in_mono for_p_mono r)

lemma switch_loop_mono:
  assumes r: "\<And>c S. res_le (r c S) (r' c S)"
  shows "res_le (switch_loop r a cur S) (switch_loop r' a cur S)"
  unfolding switch_loop_def Let_def
  by (auto split: prod.splits option.splits intro!: mono_rules parenthesised_mono vardefs_loop_mono vardefs_mono var_p_mono const_p_mono expr_list_loop_mono expr_list_mono array_p_mono block_loop_mono block_p_mono function_args_loop_mono dollar_function_mono function_p_mono object_loop_mono object_p_mono new_p_mono expr_atom_mono subscripts_mono expr_op_mono expr_ops_mono maybe_conditional_mono maybe_assign_mono expression_mono simple_statement_mono labeled_statement_mono regular_for_mono for_in_mono for_p_mono if_p_mono r)

lemma switch_block_p_mono:
  assumes r: "\<And>c S. res_le (r c S) (r' c S)"
  shows "res_le (switch_block' r  S) (switch_block' r'  S)"
  unfolding switch_block'_def Let_def
  by (auto split: prod.splits option.splits intro!: mono_rules parenthesised_mono vardefs_loop_mono vardefs_mono var_p_mono const_p_mono expr_list_loop_mono expr_list_mono array_p_mono block_loop_mono block_p_mono function_args_loop_mono dollar_function_mono function_p_mono object_loop_mono object_p_mono new_p_mono expr_atom_mono subscripts_mono expr_op_mono expr_ops_mono maybe_conditional_mono maybe_assign_mono expression_mono simple_statement_mono labeled_statement_mono regular_for_mono for_in_mono for_p_mono if_p_mono switch_loop_mono r)

lemma try_p_mono:
  assumes r: "\<And>c S. res_le (r c S) (r' c S)"
  shows "res_le (try' r  S) (try' r'  S)"
  unfolding try'_def Let_def
  by (auto split: prod.splits option.splits intro!: mono_rules parenthesised_mono vardefs_loop_mono vardefs_mono var_p_mono const_p_mono expr_list_loop_mono expr_list_mono array_p_mono block_loop_mono block_p_mono function_args_loop_mono dollar_function_mono function_p_mono object_loop_mono object_p_mono new_p_mono expr_atom_mono subscripts_mono expr_op_mono expr_ops_mono maybe_conditional_mono maybe_assign_mono expression_mono simple_statement_mono labeled_statement_mono regular_for_mono for_in_mono for_p_mono if_p_mono switch_loop_mono switch_block_p_mono r)

lemma dollar_statement_mono:
  assumes r: "\<And>c S. res_le (r c S) (r' c S)"
  shows "res_le (dollar_statement r  S) (dollar_statement r'  S)"
  unfolding dollar_statement_def Let_def
  by (auto split: prod.splits option.splits intro!: mono_rules parenthesised_mono vardefs_loop_mono vardefs_mono var_p_mono const_p_mono expr_list_loop_mono expr_list_mono array_p_mono block_loop_mono block_p_mono function_args_loop_mono dollar_function_mono function_p_mono object_loop_mono object_p_mono new_p_mono expr_atom_mono subscripts_mono expr_op_mono expr_ops_mono maybe_conditional_mono maybe_assign_mono expression_mono simple_statement_mono labeled_statement_mono regular_for_mono for_in_mono for_p_mono if_p_mono switch_loop_mono switch_block_p_mono try_p_mono r)

lemma statement_mono:
  assumes r: "\<And>c S. res_le (r c S) (r' c S)"
  shows "res_le (statement r  S) (statement r'  S)"
  unfolding statement_def Let_def
  by (auto split: prod.splits option.splits intro!: mono_rules parenthesised_mono vardefs_loop_mono vardefs_mono var_p_mono const_p_mono expr_list_loop_mono expr_list_mono array_p_mono block_loop_mono block_p_mono function_args_loop_mono dollar_function_mono function_p_mono object_loop_mono object_p_mono new_p_mono expr_atom_mono subscripts_mono expr_op_mono expr_ops_mono maybe_conditional_mono maybe_assign_mono expression_mono simple_statement_mono labeled_statement_mono regular_for_mono for_in_mono for_p_mono if_p_mono switch_loop_mono switch_block_p_mono try_p_mono dollar_statement_mono r)

lemma toplevel_loop_mono:
  assumes r: "\<And>c S. res_le (r c S) (r' c S)"
  shows "res_le (toplevel_loop r a S) (toplevel_loop r' a S)"
  unfolding toplevel_loop_def Let_def
  by (auto split: prod.splits option.splits intro!: mono_rules parenthesised_mono vardefs_loop_mono vardefs_mono var_p_mono const_p_mono expr_list_loop_mono expr_list_mono array_p_mono block_loop_mono block_p_mono function_args_loop_mono dollar_function_mono function_p_mono object_loop_mono object_p_mono new_p_mono expr_atom_mono subscripts_mono expr_op_mono expr_ops_mono maybe_conditional_mono maybe_assign_mono expression_mono simple_statement_mono labeled_statement_mono regular_for_mono for_in_mono for_p_mono if_p_mono switch_loop_mono switch_block_p_mono try_p_mono dollar_statement_mono statement_mono r)

lemma step_mono:
  assumes r: "\<And>c S. res_le (r c S) (r' c S)"
  shows "res_le (step r c S) (step r' c S)"
  unfolding step_def
  by (cases c) (auto intro!: parenthesised_mono vardefs_loop_mono vardefs_mono var_p_mono const_p_mono expr_list_loop_mono expr_list_mono array_p_mono block_loop_mono block_p_mono function_args_loop_mono dollar_function_mono function_p_mono object_loop_mono object_p_mono new_p_mono expr_atom_mono subscripts_mono expr_op_mono expr_ops_mono maybe_conditional_mono maybe_assign_mono expression_mono simple_statement_mono labeled_statement_mono regular_for_mono for_in_mono for_p_mono if_p_mono switch_loop_mono switch_block_p_mono try_p_mono dollar_statement_mono statement_mono toplevel_loop_mono r)

lemma run_Suc_mono: "res_le (run n c S) (run (Suc n) c S)"
proof (induction n arbitrary: c S)
  case 0
  then show ?case by (simp add: res_le_def)
next
  case (Suc n)
  show ?case using step_mono [of "run n" "run (Suc n)", OF Suc] by simp
qed

lemma run_mono: "n \<le> m \<Longrightarrow> run n c S = Some x \<Longrightarrow> run m c S = Some x"
proof (induction m)
  case 0
  then show ?case by simp
next
  case (Suc m)
  show ?case
  proof (cases "n = Suc m")
    case True
    with Suc.prems show ?thesis by simp
  next
    case False
    with Suc have "run m c S = Some x" by simp
    with run_Suc_mono [of m c S] show ?thesis by (simp add: res_le_def)
  qed
qed

lemma parse_mono:
  assumes "n \<le> m" and "parse n TEXT ex emb = Some x"
  shows "parse m TEXT ex emb = Some x"
proof -
  have le: "res_le (run n c S) (run m c S)" for c S
    by (cases "run n c S") (auto simp: res_le_def dest: run_mono [OF assms(1)])
  show ?thesis
  proof (cases "next_token False (tokenizer TEXT)")
    case (Inl e)
    with assms(2) show ?thesis by (simp add: parse_def)
  next
    case (Inr p)
    obtain t sc where p: "p = (t, sc)" by (cases p)
    let ?S0 = "\<lparr>S_input = sc, S_token = t, S_prev = None, S_peeked = None,
                   S_in_function = 0, S_in_loop = 0, S_labels = [],
                   exigent_mode = ex, embed_tokens = emb\<rparr>"
    have "res_le (toplevel_loop (run n) [] ?S0) (toplevel_loop (run m) [] ?S0)"
      by (rule toplevel_loop_mono) (rule le)
    moreover from assms(2) Inr p have "toplevel_loop (run n) [] ?S0 \<noteq> None"
      by (auto simp: parse_def split: option.splits)
    ultimately have "toplevel_loop (run m) [] ?S0 = toplevel_loop (run n) [] ?S0"
      by (simp add: res_le_def)
    with assms(2) Inr p show ?thesis by (simp add: parse_def)
  qed
qed

subsection \<open>Division and regular expressions at the start of a statement\<close>

text \<open>
  C1. For the input \<open>a / b / c\<close>, \<open>parse\<close> (lenient mode, no embedded tokens; any fuel
  from 30 on) returns a \<open>toplevel\<close> whose single statement is the left-nested \<open>binary\<close>
  \<open>/\<close> over the names a, b and c: two divisions and no regexp. For the input
  \<open>/a/.test(x)\<close> it returns a statement whose expression is a \<open>call\<close> of a \<open>dot\<close> on
  the \<open>regexp\<close> node with pattern "a". The tokenizer alone reads the leading slash as the
  operator \<open>/\<close>; the regexp comes from the parser's call of the tokenizer with
  \<open>force_regexp\<close>.
\<close>

theorem parse_division_and_regexp:
  assumes "30 \<le> n"
  shows "parse n ''a / b / c'' False False =
     Some (Inr (JArr [JStr ''toplevel'', JArr [JArr [JStr ''stat'',
       JArr [JStr ''binary'', JStr ''/'',
         JArr [JStr ''binary'', JStr ''/'', JArr [JStr ''name'', JStr ''a''],
                                            JArr [JStr ''name'', JStr ''b'']],
         JArr [JStr ''name'', JStr ''c'']]]]]))
   \<and> parse n ''/a/.test(x)'' False False =
     Some (Inr (JArr [JStr ''toplevel'', JArr [JArr [JStr ''stat'',
       JArr [JStr ''call'',
         JArr [JStr ''dot'', JArr [JStr ''regexp'', JStr ''a'', JStr []], JStr ''test''],
         JArr [JArr [JStr ''name'', JStr ''x'']]]]]]))
   \<and> map_sum id fst (next_token False (tokenizer ''/a/.test(x)'')) =
     Inr (Token ''operator'' (VStr ''/'') 0 0 0 False (Some []))
   \<and> map_sum id fst (next_token True
         (snd (projr (next_token False (tokenizer ''/a/.test(x)''))))) =
     Inr (Token ''regexp'' (VRegexp ''a'' []) 0 0 0 False (Some []))"
proof -
  have a: "parse 30 ''a / b / c'' False False =
     Some (Inr (JArr [JStr ''toplevel'', JArr [JArr [JStr ''stat'',
       JArr [JStr ''binary'', JStr ''/'',
         JArr [JStr ''binary'', JStr ''/'', JArr [JStr ''name'', JStr ''a''],
                                            JArr [JStr ''name'', JStr ''b'']],
         JArr [JStr ''name'', JStr ''c'']]]]]))"
    by code_simp
  have b: "parse 30 ''/a/.test(x)'' False False =
     Some (Inr (JArr [JStr ''toplevel'', JArr [JArr [JStr ''stat'',
       JArr [JStr ''call'',
         JArr [JStr ''dot'', JArr [JStr ''regexp'', JStr ''a'', JStr []], JStr ''test''],
         JArr [JArr [JStr ''name'', JStr ''x'']]]]]]))"
    by code_simp
  have c: "map_sum id fst (next_token False (tokenizer ''/a/.test(x)'')) =
     Inr (Token ''operator'' (VStr ''/'') 0 0 0 False (Some []))
   \<and> map_sum id fst (next_token True
         (snd (projr (next_token False (tokenizer ''/a/.test(x)''))))) =
     Inr (Token ''regexp'' (VRegexp ''a'' []) 0 0 0 False (Some []))"
    by code_simp
  from parse_mono [OF assms a] parse_mono [OF assms b] c show ?thesis by blast
qed

theorem parse_division_and_regexp_witness:
  "(30::nat) \<le> 64
   \<and> parse 64 ''a / b / c'' False False =
     Some (Inr (JArr [JStr ''toplevel'', JArr [JArr [JStr ''stat'',
       JArr [JStr ''binary'', JStr ''/'',
         JArr [JStr ''binary'', JStr ''/'', JArr [JStr ''name'', JStr ''a''],
                                            JArr [JStr ''name'', JStr ''b'']],
         JArr [JStr ''name'', JStr ''c'']]]]]))
   \<and> parse 64 ''/a/.test(x)'' False False =
     Some (Inr (JArr [JStr ''toplevel'', JArr [JArr [JStr ''stat'',
       JArr [JStr ''call'',
         JArr [JStr ''dot'', JArr [JStr ''regexp'', JStr ''a'', JStr []], JStr ''test''],
         JArr [JArr [JStr ''name'', JStr ''x'']]]]]]))"
proof -
  have h: "(30::nat) \<le> 64" by simp
  from parse_division_and_regexp [OF h] h show ?thesis by blast
qed

subsection \<open>Automatic semicolon insertion\<close>

text \<open>
  C3. Where the parser requires the \<open>;\<close> that ends a statement (\<open>semicolon\<close>) and the
  current token is not \<open>;\<close>: in exigent mode the call always raises a ParseError; in
  lenient mode it succeeds, consuming nothing, exactly when the current token has
  \<open>nlb\<close> set, or is the \<open>eof\<close> token, or is the punctuation \<open>}\<close>, and raises a
  ParseError otherwise.
\<close>

theorem semicolon_insertion:
  assumes "\<not> is_p S ''punc'' (Some '';'')"
  shows "(exigent_mode S \<longrightarrow> (\<exists>m l c p. semicolon S = Some (Inl (JS_Parse_Error m l c p))))
     \<and> (\<not> exigent_mode S \<longrightarrow>
          (if tok_nlb (S_token S) \<or> tok_type (S_token S) = ''eof''
              \<or> (tok_type (S_token S) = ''punc'' \<and> tok_value (S_token S) = VStr ''}'')
           then semicolon S = Some (Inr ((), S))
           else (\<exists>m l c p. semicolon S = Some (Inl (JS_Parse_Error m l c p)))))"
  using assms
  by (auto simp: semicolon_def can_insert_semicolon_def unexpected_def token_error_def
      croak_def throw_def ret_def is_p_def is_token_def Let_def)

theorem semicolon_insertion_witness:
  "\<not> is_p \<lparr>S_input = tokenizer ''a'', S_token = Token ''eof'' VUndef 0 1 1 False (Some []),
       S_prev = None, S_peeked = None, S_in_function = 0, S_in_loop = 0, S_labels = [],
       exigent_mode = False, embed_tokens = False\<rparr> ''punc'' (Some '';'')
   \<and> semicolon \<lparr>S_input = tokenizer ''a'', S_token = Token ''eof'' VUndef 0 1 1 False (Some []),
       S_prev = None, S_peeked = None, S_in_function = 0, S_in_loop = 0, S_labels = [],
       exigent_mode = False, embed_tokens = False\<rparr>
     = Some (Inr ((), \<lparr>S_input = tokenizer ''a'',
       S_token = Token ''eof'' VUndef 0 1 1 False (Some []),
       S_prev = None, S_peeked = None, S_in_function = 0, S_in_loop = 0, S_labels = [],
       exigent_mode = False, embed_tokens = False\<rparr>))
   \<and> \<not> is_p \<lparr>S_input = tokenizer ''a'', S_token = Token ''eof'' VUndef 0 1 1 False (Some []),
       S_prev = None, S_peeked = None, S_in_function = 0, S_in_loop = 0, S_labels = [],
       exigent_mode = True, embed_tokens = False\<rparr> ''punc'' (Some '';'')
   \<and> semicolon \<lparr>S_input = tokenizer ''a'', S_token = Token ''eof'' VUndef 0 1 1 False (Some []),
       S_prev = None, S_peeked = None, S_in_function = 0, S_in_loop = 0, S_labels = [],
       exigent_mode = True, embed_tokens = False\<rparr>
     = Some (Inl (JS_Parse_Error ''Unexpected token: eof (undefined)'' 0 1 0))"
proof -
  let ?S = "\<lambda>ex. \<lparr>S_input = tokenizer ''a'', S_token = Token ''eof'' VUndef 0 1 1 False (Some []),
       S_prev = None, S_peeked = None, S_in_function = 0, S_in_loop = 0, S_labels = [],
       exigent_mode = ex, embed_tokens = False\<rparr>"
  have h: "\<not> is_p (?S False) ''punc'' (Some '';'')" "\<not> is_p (?S True) ''punc'' (Some '';'')"
    by (simp_all add: is_p_def is_token_def)
  have e: "semicolon (?S True)
      = Some (Inl (JS_Parse_Error ''Unexpected token: eof (undefined)'' 0 1 0))"
    by code_simp
  from semicolon_insertion [OF h(1)] semicolon_insertion [OF h(2)] h e show ?thesis
    by simp
qed

subsection \<open>The head of a for-in statement\<close>

text \<open>
  C6 (the code at the failing input). For \<open>for (var x in o) ;\<close> the third element of the
  \<open>for-in\<close> node, its lhs, is the node whose tag is \<open>name\<close> and whose value is the first
  entry of the declaration list, the one-element list holding "x": \<open>for_in\<close> reads
  \<open>init[1][0]\<close>, which is the entry, not the name inside it.
\<close>

theorem for_in_lhs_wraps_first_declaration:
  assumes "30 \<le> n"
  shows "parse n ''for (var x in o) ;'' False False =
     Some (Inr (JArr [JStr ''toplevel'', JArr [JArr [JStr ''for-in'',
       JArr [JStr ''var'', JArr [JArr [JStr ''x'']]],
       JArr [JStr ''name'', JArr [JStr ''x'']],
       JArr [JStr ''name'', JStr ''o''],
       JArr [JStr ''block'']]]]))"
proof -
  have a: "parse 30 ''for (var x in o) ;'' False False =
     Some (Inr (JArr [JStr ''toplevel'', JArr [JArr [JStr ''for-in'',
       JArr [JStr ''var'', JArr [JArr [JStr ''x'']]],
       JArr [JStr ''name'', JArr [JStr ''x'']],
       JArr [JStr ''name'', JStr ''o''],
       JArr [JStr ''block'']]]]))"
    by code_simp
  from parse_mono [OF assms a] show ?thesis .
qed

theorem for_in_lhs_wraps_first_declaration_witness:
  "(30::nat) \<le> 64
   \<and> parse 64 ''for (var x in o) ;'' False False =
     Some (Inr (JArr [JStr ''toplevel'', JArr [JArr [JStr ''for-in'',
       JArr [JStr ''var'', JArr [JArr [JStr ''x'']]],
       JArr [JStr ''name'', JArr [JStr ''x'']],
       JArr [JStr ''name'', JStr ''o''],
       JArr [JStr ''block'']]]]))"
proof -
  have h: "(30::nat) \<le> 64" by simp
  from for_in_lhs_wraps_first_declaration [OF h] h show ?thesis by blast
qed

subsection \<open>Assignment to a literal\<close>

text \<open>
  C8 (as amended). For the input \<open>1 = 2;\<close>, \<open>parse\<close> (any fuel from 30 on) in exigent mode raises the
  ParseError "Invalid assignment" at the \<open>=\<close>; in lenient mode, the default, it returns
  the tree with the assignment of the number 2 to the number 1, since \<open>is_assignable\<close>
  accepts every expression there.
\<close>

theorem parse_assignment_to_literal:
  assumes "30 \<le> n"
  shows "parse n ''1 = 2;'' True False = Some (Inl (JS_Parse_Error ''Invalid assignment'' 0 2 2))
   \<and> parse n ''1 = 2;'' False False =
     Some (Inr (JArr [JStr ''toplevel'', JArr [JArr [JStr ''stat'',
       JArr [JStr ''assign'', JTrue, JArr [JStr ''num'', JNum 1],
                                    JArr [JStr ''num'', JNum 2]]]]]))"
proof -
  have a: "parse 30 ''1 = 2;'' True False = Some (Inl (JS_Parse_Error ''Invalid assignment'' 0 2 2))"
    by code_simp
  have b: "parse 30 ''1 = 2;'' False False =
     Some (Inr (JArr [JStr ''toplevel'', JArr [JArr [JStr ''stat'',
       JArr [JStr ''assign'', JTrue, JArr [JStr ''num'', JNum 1],
                                    JArr [JStr ''num'', JNum 2]]]]]))"
    by code_simp
  from parse_mono [OF assms a] parse_mono [OF assms b] show ?thesis by blast
qed

theorem parse_assignment_to_literal_witness:
  "(30::nat) \<le> 64
   \<and> parse 64 ''1 = 2;'' True False = Some (Inl (JS_Parse_Error ''Invalid assignment'' 0 2 2))
   \<and> parse 64 ''1 = 2;'' False False =
     Some (Inr (JArr [JStr ''toplevel'', JArr [JArr [JStr ''stat'',
       JArr [JStr ''assign'', JTrue, JArr [JStr ''num'', JNum 1],
                                    JArr [JStr ''num'', JNum 2]]]]]))"
proof -
  have h: "(30::nat) \<le> 64" by simp
  from parse_assignment_to_literal [OF h] h show ?thesis by blast
qed

text \<open>
  C8, the claim as stated, fails: with \<open>exigent_mode\<close> false the parse of \<open>1 = 2;\<close> is
  not an error.
\<close>

theorem parse_assignment_to_literal_lenient_counterexample:
  "case parse 30 ''1 = 2;'' False False of Some (Inr ast) \<Rightarrow> True | _ \<Rightarrow> False"
  by code_simp

subsection \<open>The flag \<open>regex_allowed\<close> after a token\<close>

lemma token_fst:
  "fst (token type val c S) = Token type val (tokline S) (tokcol S) (tokpos S)
     (newline_before S) (if c then None else Some (comments_before S))"
  by (simp add: token_def Let_def)

lemma token_regex_allowed:
  "regex_allowed (snd (token type val c S)) =
     ((type = ''operator'' \<and> \<not> HOPv UNARY_POSTFIX val)
      \<or> (type = ''keyword'' \<and> HOPv KEYWORDS_BEFORE_EXPRESSION val)
      \<or> (type = ''punc'' \<and> HOPv PUNC_BEFORE_EXPRESSION val))"
  by (simp add: token_def Let_def)

lemma rule_agrees:
  "spec_regex_allowed_after (Token type val l c p n cb) =
     ((type = ''operator'' \<and> \<not> HOPv UNARY_POSTFIX val)
      \<or> (type = ''keyword'' \<and> HOPv KEYWORDS_BEFORE_EXPRESSION val)
      \<or> (type = ''punc'' \<and> HOPv PUNC_BEFORE_EXPRESSION val))"
  by (cases val)
     (auto simp: spec_regex_allowed_after_def HOPv_def HOP_def UNARY_POSTFIX_def
      KEYWORDS_BEFORE_EXPRESSION_def PUNC_BEFORE_EXPRESSION_def characters_def)

lemma token_flag:
  "token type val c S = (t, S') \<Longrightarrow> regex_allowed S' = spec_regex_allowed_after t"
  using token_fst [of type val c S] token_regex_allowed [of type val c S]
  by (simp add: rule_agrees)

lemma with_eof_error_Inr:
  "with_eof_error msg S r = Inr x \<Longrightarrow> r = Inr x"
  by (auto simp: with_eof_error_def parse_error_def split: sum.splits exn.splits)


lemma read_num_flag:
  assumes "read_num p S = Inr (t, S')"
  shows "regex_allowed S' = spec_regex_allowed_after t"
proof -
  obtain num S1 where l: "read_num_lexeme p S = (num, S1)"
    by (cases "read_num_lexeme p S")
  show ?thesis
  proof (cases "parse_js_number num")
    case None
    with assms l show ?thesis by (simp add: read_num_def parse_error_def)
  next
    case (Some v)
    with assms l show ?thesis
      by (cases v) (auto simp: read_num_def parse_error_def dest: token_flag)
  qed
qed

lemma read_string_loop_flag:
  "read_string_loop q r S = Inr (t, S') \<Longrightarrow> regex_allowed S' = spec_regex_allowed_after t"
proof (induction q r S rule: read_string_loop.induct)
  case (1 quote ret S)
  show ?case
  proof (cases "next_eof S")
    case (Inl e)
    with "1.prems" show ?thesis by (subst (asm) read_string_loop.simps) simp
  next
    case (Inr x)
    obtain ch S1 where x: "x = (ch, S1)" by (cases x)
    show ?thesis
    proof (cases "ch = CHR 0x5C")
      case True
      show ?thesis
      proof (cases "read_escaped_char S1")
        case (Inl e)
        with "1.prems" Inr x True show ?thesis
          by (subst (asm) read_string_loop.simps) simp
      next
        case (Inr y)
        obtain c S2 where y: "y = (c, S2)" by (cases y)
        from "1.prems" \<open>next_eof S = Inr x\<close> x True Inr y
        have "read_string_loop quote (ret @ [c]) S2 = Inr (t, S')"
          by (subst (asm) read_string_loop.simps) simp
        with "1.IH"(1) [OF \<open>next_eof S = Inr x\<close> x [symmetric] True Inr y [symmetric]]
        show ?thesis by simp
      qed
    next
      case False
      show ?thesis
      proof (cases "Some ch = quote")
        case True
        with "1.prems" Inr x False show ?thesis
          by (subst (asm) read_string_loop.simps) (auto dest: token_flag)
      next
        case nq: False
        from "1.prems" Inr x False nq
        have "read_string_loop quote (ret @ [ch]) S1 = Inr (t, S')"
          by (subst (asm) read_string_loop.simps) simp
        with "1.IH"(2) [OF Inr x [symmetric] False nq] show ?thesis by simp
      qed
    qed
  qed
qed

lemma read_string_flag:
  assumes "read_string S = Inr (t, S')"
  shows "regex_allowed S' = spec_regex_allowed_after t"
proof -
  obtain q S1 where n: "next_ch S = (q, S1)" by (cases "next_ch S")
  from assms n have "read_string_loop q [] S1 = Inr (t, S')"
    by (auto simp: read_string_def dest: with_eof_error_Inr)
  then show ?thesis by (rule read_string_loop_flag)
qed

lemma read_regexp_flag:
  assumes "read_regexp S = Inr (t, S')"
  shows "regex_allowed S' = spec_regex_allowed_after t"
proof -
  from assms have r: "(case read_regexp_loop False [] False S of
          Inl e \<Rightarrow> Inl e
        | Inr (regexp, S1) \<Rightarrow>
            (case read_name S1 of
               Inl e \<Rightarrow> Inl e
             | Inr (mods, S2) \<Rightarrow> Inr (token ''regexp'' (VRegexp regexp mods) False S2)))
      = Inr (t, S')"
    unfolding read_regexp_def by (rule with_eof_error_Inr)
  then obtain regexp S1 where a: "read_regexp_loop False [] False S = Inr (regexp, S1)"
    by (cases "read_regexp_loop False [] False S") auto
  with r obtain mods S2 where b: "read_name S1 = Inr (mods, S2)"
    by (cases "read_name S1") auto
  from r a b have "token ''regexp'' (VRegexp regexp mods) False S2 = (t, S')" by simp
  then show ?thesis by (rule token_flag)
qed

lemma read_operator_flag:
  assumes "read_operator p S = (t, S')"
  shows "regex_allowed S' = spec_regex_allowed_after t"
proof -
  obtain op0 S1 where a: "(case p of
              Some p \<Rightarrow> (p, S)
            | None \<Rightarrow> (case next_ch S of (Some c, S1) \<Rightarrow> ([c], S1) | (None, S1) \<Rightarrow> ([], S1)))
        = (op0, S1)"
    by (cases "(case p of
              Some p \<Rightarrow> (p, S)
            | None \<Rightarrow> (case next_ch S of (Some c, S1) \<Rightarrow> ([c], S1) | (None, S1) \<Rightarrow> ([], S1)))")
  obtain op S2 where b: "grow op0 S1 = (op, S2)" by (cases "grow op0 S1")
  from assms a b have "token ''operator'' (VStr op) False S2 = (t, S')"
    by (simp add: read_operator_def)
  then show ?thesis by (rule token_flag)
qed

lemma handle_dot_flag:
  assumes "handle_dot S = Inr (t, S')"
  shows "regex_allowed S' = spec_regex_allowed_after t"
proof (cases "peek (snd (next_ch S))")
  case None
  with assms show ?thesis by (auto simp: handle_dot_def Let_def dest: token_flag)
next
  case (Some ch)
  with assms show ?thesis
    by (cases "is_digit ch") (auto simp: handle_dot_def Let_def dest: token_flag read_num_flag)
qed

lemma read_word_flag:
  assumes "read_word S = Inr (t, S')"
  shows "regex_allowed S' = spec_regex_allowed_after t"
proof (cases "read_name S")
  case (Inl e)
  with assms show ?thesis by (simp add: read_word_def)
next
  case (Inr x)
  obtain word S1 where x: "x = (word, S1)" by (cases x)
  from assms Inr x show ?thesis
    by (auto simp: read_word_def split: if_splits dest: token_flag)
qed

lemma next_token_flag:
  "next_token force S = Inr (t, S') \<Longrightarrow> regex_allowed S' = spec_regex_allowed_after t"
  and handle_slash_flag:
  "handle_slash S0 = Inr (t, S') \<Longrightarrow> regex_allowed S' = spec_regex_allowed_after t"
proof (induction force S and S0 arbitrary: t S' and t S' rule: next_token_handle_slash.induct)
  case (1 force_regexp S)
  note IH = "1.IH"
  from "1.prems" show ?case
    apply (subst (asm) next_token.simps)
    apply (simp add: Let_def parse_error_def split: if_splits option.splits)
            apply (erule read_regexp_flag)
           apply (erule token_flag)
          apply (erule read_num_flag)
         apply (erule read_string_flag)
        apply (erule token_flag)
       apply (erule handle_dot_flag)
    subgoal using IH by simp
     apply (erule read_operator_flag)
    apply (erule read_word_flag)
    done
next
  case (2 S)
  note IH = "2.IH"
  from "2.prems" show ?case
    apply (subst (asm) handle_slash.simps)
    apply (simp add: Let_def split: if_splits prod.splits sum.splits)
    subgoal by (rule IH(1) [OF refl refl _ sym], assumption+)
    subgoal by (rule IH(2) [OF refl refl _ _ _ refl], simp, assumption+)
     apply (erule read_regexp_flag)
    apply (erule read_operator_flag)
    done
qed

text \<open>
  C2. After every emission of a token by \<open>token\<close>, and so after every token that
  \<open>next_token\<close> returns, the flag \<open>regex_allowed\<close> of the scanner is true if and only if
  the token is an operator other than \<open>++\<close> and \<open>--\<close>, or one of the keywords return,
  new, delete, throw, else, case, or one of the punctuation characters
  \<open>[ { } ( , . ; :\<close>; after any other token it is false.
\<close>

theorem regex_allowed_after_emission:
  "(token type val c S = (t, S') \<longrightarrow> regex_allowed S' = spec_regex_allowed_after t)
   \<and> (next_token force S0 = Inr (t0, S0') \<longrightarrow> regex_allowed S0' = spec_regex_allowed_after t0)"
  using token_flag next_token_flag by blast

theorem regex_allowed_after_emission_witness:
  "token ''operator'' (VStr ''++'') False (tokenizer ''x'') =
     (Token ''operator'' (VStr ''++'') 0 0 0 False (Some []), tokenizer ''x'')
   \<and> regex_allowed (tokenizer ''x'')
      = spec_regex_allowed_after (Token ''operator'' (VStr ''++'') 0 0 0 False (Some []))
   \<and> next_token False (tokenizer ''return /a/'') =
     Inr (Token ''keyword'' (VStr ''return'') 0 0 0 False (Some []),
          (tokenizer ''return /a/'')\<lparr>pos := 6, col := 6, regex_allowed := True\<rparr>)
   \<and> regex_allowed ((tokenizer ''return /a/'')\<lparr>pos := 6, col := 6, regex_allowed := True\<rparr>)
      = spec_regex_allowed_after (Token ''keyword'' (VStr ''return'') 0 0 0 False (Some []))"
proof -
  have a: "token ''operator'' (VStr ''++'') False (tokenizer ''x'') =
     (Token ''operator'' (VStr ''++'') 0 0 0 False (Some []), tokenizer ''x'')"
    by code_simp
  have b: "next_token False (tokenizer ''return /a/'') =
     Inr (Token ''keyword'' (VStr ''return'') 0 0 0 False (Some []),
          (tokenizer ''return /a/'')\<lparr>pos := 6, col := 6, regex_allowed := True\<rparr>)"
    by code_simp
  from a b
    regex_allowed_after_emission [of "''operator''" "VStr ''++''" False "tokenizer ''x''"
        "Token ''operator'' (VStr ''++'') 0 0 0 False (Some [])" "tokenizer ''x''"
        False "tokenizer ''return /a/''" "Token ''keyword'' (VStr ''return'') 0 0 0 False (Some [])"
        "(tokenizer ''return /a/'')\<lparr>pos := 6, col := 6, regex_allowed := True\<rparr>"]
  show ?thesis by simp
qed

subsection \<open>Comments and the flag \<open>regex_allowed\<close>\<close>

lemma skip_whitespace_regex_allowed:
  "regex_allowed (skip_whitespace S) = regex_allowed S"
proof (induction S rule: skip_whitespace.induct)
  case (1 S)
  show ?case
  proof (cases "peek S")
    case None
    then show ?thesis by (subst skip_whitespace.simps) simp
  next
    case (Some ch)
    with 1 show ?thesis
      by (subst skip_whitespace.simps)
         (cases "HOP WHITESPACE_CHARS [ch]", auto simp: next_ch_def Let_def)
  qed
qed

lemma slash_facts:
  "\<not> is_digit (CHR ''/'')" "\<not> HOP PUNC_CHARS [CHR ''/'']"
  by (simp_all add: is_digit_def charCode_def HOP_def PUNC_CHARS_def characters_def)

lemma comment_step_next_token:
  assumes "comment_step S = Some S'"
  shows "next_token False S = next_token False S' \<and> regex_allowed S' = regex_allowed S"
proof -
  let ?S1 = "start_token (skip_whitespace S)"
  let ?S2 = "snd (next_ch ?S1)"
  from assms have p1: "peek ?S1 = Some (CHR ''/'')"
    by (auto simp: comment_step_def Let_def split: if_splits)
  have ra: "regex_allowed ?S2 = regex_allowed S"
    by (simp add: next_ch_def Let_def start_token_def skip_whitespace_regex_allowed)
  have nt: "next_token False S = handle_slash ?S1"
    using p1 by (subst next_token.simps) (simp add: Let_def slash_facts)
  show ?thesis
  proof (cases "peek ?S2 = Some (CHR ''/'')")
    case True
    obtain c S3 where l: "read_line_comment ?S2 = (c, S3)"
      by (cases "read_line_comment ?S2")
    from assms p1 True l
    have s: "S' = S3\<lparr>comments_before := comments_before S3 @ [c],
                      regex_allowed := regex_allowed ?S2\<rparr>"
      by (simp add: comment_step_def Let_def)
    have "handle_slash ?S1 = next_token False S'"
      using True l s by (subst handle_slash.simps) (simp add: Let_def)
    with nt s ra show ?thesis by simp
  next
    case False
    with assms p1 have star: "peek ?S2 = Some (CHR ''*'')"
      by (auto simp: comment_step_def Let_def split: if_splits)
    from assms p1 False star obtain c S3 where l: "read_multiline_comment ?S2 = Inr (c, S3)"
      by (cases "read_multiline_comment ?S2") (auto simp: comment_step_def Let_def)
    from assms p1 False star l
    have s: "S' = S3\<lparr>comments_before := comments_before S3 @ [c],
                      regex_allowed := regex_allowed ?S2\<rparr>"
      by (simp add: comment_step_def Let_def)
    have "handle_slash ?S1 = next_token False S'"
      using False star l s by (subst handle_slash.simps) (simp add: Let_def)
    with nt s ra show ?thesis by simp
  qed
qed

text \<open>
  C10. When a call of the tokenizer reads one or more comments before the next token
  (\<open>n\<close> times it finds \<open>//\<close> or \<open>/*\<close> after blanks and reads the comment), the token it
  returns is the one \<open>next_token\<close> scans from the state after the last comment, and in
  that state \<open>regex_allowed\<close> has the value it had before the comments were read: the
  restore in \<open>handle_slash\<close> undoes what emitting the comment tokens did to the flag.
\<close>

theorem comments_keep_regex_allowed:
  "comment_steps n S = Some S' \<Longrightarrow>
     next_token False S = next_token False S' \<and> regex_allowed S' = regex_allowed S"
proof (induction n arbitrary: S)
  case 0
  then show ?case by simp
next
  case (Suc n)
  from Suc.prems obtain S1 where a: "comment_step S = Some S1" and b: "comment_steps n S1 = Some S'"
    by (auto split: option.splits)
  from comment_step_next_token [OF a] Suc.IH [OF b] show ?case by simp
qed

theorem comments_keep_regex_allowed_witness:
  "(let S = (tokenizer '' /*c*/ //d\<newline>/a/'')\<lparr>regex_allowed := True\<rparr>;
        cs = [Token ''comment2'' (VStr ''c'') 0 1 1 False None,
              Token ''comment1'' (VStr ''d'') 0 4 7 False None];
        S' = S\<lparr>pos := 10, tokpos := 7, col := 6, tokcol := 4, comments_before := cs\<rparr>
    in comment_steps 2 S = Some S'
       \<and> next_token False S = next_token False S'
       \<and> regex_allowed S' = regex_allowed S
       \<and> map_sum id fst (next_token False S) =
            Inr (Token ''regexp'' (VRegexp ''a'' []) 1 0 11 True (Some cs)))"
proof -
  let ?S = "(tokenizer '' /*c*/ //d\<newline>/a/'')\<lparr>regex_allowed := True\<rparr>"
  let ?cs = "[Token ''comment2'' (VStr ''c'') 0 1 1 False None,
              Token ''comment1'' (VStr ''d'') 0 4 7 False None]"
  let ?S' = "?S\<lparr>pos := 10, tokpos := 7, col := 6, tokcol := 4, comments_before := ?cs\<rparr>"
  have h1: "comment_steps 2 ?S = Some ?S'" by code_simp
  have h2: "map_sum id fst (next_token False ?S) =
      Inr (Token ''regexp'' (VRegexp ''a'' []) 1 0 11 True (Some ?cs))" by code_simp
  from comments_keep_regex_allowed [OF h1] h1 h2
  show ?thesis unfolding Let_def by blast
qed

subsection \<open>The class of a word\<close>

text \<open>
  C4 (the code at the failing input). The words \<open>true\<close>, \<open>false\<close>, \<open>null\<close> and
  \<open>undefined\<close> come out of the tokenizer as \<open>name\<close> tokens: \<open>read_word\<close> asks first
  whether the word is in \<open>KEYWORDS\<close>, which lists none of them, so its test against
  \<open>KEYWORDS_ATOM\<close> is never reached with a word that passes it.
\<close>

theorem atom_words_are_name_tokens:
  "map_sum id fst (next_token False (tokenizer ''true'')) =
     Inr (Token ''name'' (VStr ''true'') 0 0 0 False (Some []))
   \<and> map_sum id fst (next_token False (tokenizer ''false'')) =
     Inr (Token ''name'' (VStr ''false'') 0 0 0 False (Some []))
   \<and> map_sum id fst (next_token False (tokenizer ''null'')) =
     Inr (Token ''name'' (VStr ''null'') 0 0 0 False (Some []))
   \<and> map_sum id fst (next_token False (tokenizer ''undefined'')) =
     Inr (Token ''name'' (VStr ''undefined'') 0 0 0 False (Some []))"
  by code_simp

subsection \<open>The flag \<open>nlb\<close> across a comment\<close>

text \<open>
  C7 (the code at the failing input). In the text of a, a newline, the comment
  \<open>/*c*/\<close>, a blank and b, the token for b has \<open>nlb\<close> false although a newline lies
  between a and b: the comment token took the flag (its own \<open>nlb\<close> is true), and
  \<open>read_multiline_comment\<close> then set \<open>newline_before\<close> from the comment's text alone.
\<close>

theorem nlb_lost_across_block_comment:
  "map_sum id fst (next_token False (snd (projr (next_token False
       (tokenizer ''a\<newline>/*c*/ b''))))) =
     Inr (Token ''name'' (VStr ''b'') 1 3 8 False
            (Some [Token ''comment2'' (VStr ''c'') 1 0 2 True None]))"
  by code_simp

subsection \<open>Validation of number literals\<close>

lemma re_test_Zero [simp]: "re_test i Zero s = False"
  by (induction s) simp_all

lemma re_test_Seq_Zero [simp]: "re_test i (Seq Zero r) s = False"
  by (induction s) simp_all

lemma re_test_Alt [simp]: "re_test i (Alt a b) s = (re_test i a s \<or> re_test i b s)"
  by (induction s arbitrary: a b) simp_all

lemma re_test_Seq_Eps [simp]: "re_test i (Seq Eps r) s = re_test i r s"
  by (cases s) simp_all

lemma hex_class_digit:
  "cls_match True [(CHR ''0'', CHR ''9''), (CHR ''a'', CHR ''f'')] c \<Longrightarrow> digit_val c < 16"
  by (auto simp: cls_match_def in_range_def toLowerCase_def toUpperCase_def digit_val_def
      charCode_def split: if_splits)

lemma oct_class_digit:
  "cls_match False [(CHR ''0'', CHR ''7'')] c \<Longrightarrow> digit_val c < 8"
  by (auto simp: cls_match_def in_range_def digit_val_def charCode_def split: if_splits)

lemma hex_shape:
  assumes "re_test True RE_HEX_NUMBER s"
  shows "\<exists>a b c r. s = a # b # c # r \<and> digit_val c < 16"
proof -
  from assms obtain a s1 where s: "s = a # s1"
    by (cases s) (simp_all add: RE_HEX_NUMBER_def Lit_def Plus_def)
  with assms have 1: "re_test True (Seq (Lit (CHR ''x''))
     (Plus (Cls [(CHR ''0'', CHR ''9''), (CHR ''a'', CHR ''f'')]))) s1"
    by (simp add: RE_HEX_NUMBER_def Lit_def split: if_splits)
  then obtain b s2 where s1: "s1 = b # s2"
    by (cases s1) (simp_all add: Lit_def Plus_def)
  with 1 have 2: "re_test True (Plus (Cls [(CHR ''0'', CHR ''9''), (CHR ''a'', CHR ''f'')])) s2"
    by (simp add: Lit_def split: if_splits)
  then obtain c r where s2: "s2 = c # r"
    by (cases s2) (simp_all add: Plus_def)
  with 2 have "cls_match True [(CHR ''0'', CHR ''9''), (CHR ''a'', CHR ''f'')] c"
    by (simp add: Plus_def split: if_splits)
  with s s1 s2 show ?thesis by (auto dest: hex_class_digit)
qed

lemma oct_shape:
  assumes "re_test False RE_OCT_NUMBER s"
  shows "\<exists>a c r. s = a # c # r \<and> digit_val c < 8"
proof -
  from assms obtain a s1 where s: "s = a # s1"
    by (cases s) (simp_all add: RE_OCT_NUMBER_def Lit_def Plus_def)
  with assms have 1: "re_test False (Plus (Cls [(CHR ''0'', CHR ''7'')])) s1"
    by (simp add: RE_OCT_NUMBER_def Lit_def split: if_splits)
  then obtain c r where s1: "s1 = c # r"
    by (cases s1) (simp_all add: Plus_def)
  with 1 have "cls_match False [(CHR ''0'', CHR ''7'')] c"
    by (simp add: Plus_def split: if_splits)
  with s s1 show ?thesis by (auto dest: oct_class_digit)
qed

lemma parseInt_digit: "digit_val c < radix \<Longrightarrow> \<exists>v. parseInt (c # r) radix = Num v"
  by (simp add: parseInt_def Let_def)

lemma parseFloat_digit: "is_digit d \<Longrightarrow> \<exists>v. parseFloat (d # r) = Num v"
  by (simp add: parseFloat_def Let_def)

lemma dot_not_digit: "\<not> is_digit (CHR ''.'')"
  by (simp add: is_digit_def charCode_def)

lemma parseFloat_dot_digit: "is_digit d \<Longrightarrow> \<exists>v. parseFloat (CHR ''.'' # d # r) = Num v"
  by (simp add: parseFloat_def Let_def dot_not_digit)


lemma read_while_loop_prefix:
  "\<exists>r. fst (read_while_loop pred fl i acc S) = acc @ r"
proof (induction pred fl i acc S rule: read_while_loop.induct)
  case (1 pred fl i acc S)
  show ?case
  proof (cases "peek S")
    case None
    then show ?thesis by (subst read_while_loop.simps) simp
  next
    case (Some ch)
    obtain b fl1 where p: "pred fl ch i = (b, fl1)" by (cases "pred fl ch i")
    show ?thesis
    proof (cases b)
      case True
      from "1.IH" [OF Some p [symmetric, unfolded True] ] Some p True show ?thesis
        by (subst read_while_loop.simps) auto
    next
      case False
      with Some p show ?thesis by (subst read_while_loop.simps) simp
    qed
  qed
qed

lemma read_num_pred_digit:
  assumes "is_digit d"
  shows "fst (read_num_pred prefix fl d i) = True"
proof -
  from assms have "d \<noteq> CHR ''x''" "d \<noteq> CHR ''X''" "d \<noteq> CHR ''E''" "d \<noteq> CHR ''e''"
    "d \<noteq> CHR ''-''" "d \<noteq> CHR ''+''" "d \<noteq> CHR ''.''"
    by (auto simp: is_digit_def charCode_def)
  with assms show ?thesis
    by (simp add: read_num_pred_def Let_def is_alphanumeric_char_def)
qed

lemma read_num_lexeme_start:
  assumes "peek S = Some d" and "is_digit d"
  shows "\<exists>r. fst (read_num_lexeme prefix S) = (case prefix of None \<Rightarrow> [] | Some p \<Rightarrow> p) @ d # r"
proof -
  let ?fl = "\<lparr>has_e = False, after_e = False, has_x = False, has_dot = (prefix = Some ''.'')\<rparr>"
  obtain fl1 where p: "read_num_pred prefix ?fl d 0 = (True, fl1)"
    using read_num_pred_digit [OF assms(2), of prefix ?fl 0]
    by (cases "read_num_pred prefix ?fl d 0") auto
  have "read_while (read_num_pred prefix) ?fl S
      = read_while_loop (read_num_pred prefix) fl1 (0 + 1) ([] @ [d]) (snd (next_ch S))"
    unfolding read_while_def using assms(1) p by (subst read_while_loop.simps) simp
  moreover obtain r where
    "fst (read_while_loop (read_num_pred prefix) fl1 (0 + 1) ([] @ [d]) (snd (next_ch S)))
       = ([] @ [d]) @ r"
    using read_while_loop_prefix
      [of "read_num_pred prefix" fl1 "0 + 1" "[] @ [d]" "snd (next_ch S)"] by blast
  ultimately have "fst (read_while (read_num_pred prefix) ?fl S) = d # r" by simp
  then show ?thesis
    by (cases "read_while (read_num_pred prefix) ?fl S"; cases prefix)
       (auto simp: read_num_lexeme_def Let_def)
qed

text \<open>
  What \<open>read_num\<close> does with the text it consumed. It is called on a digit, or after a
  dot that a digit follows. With \<open>num\<close> that text (after the dot, if any), it emits a
  \<open>num\<close> token exactly when \<open>num\<close> passes one of the three tests of
  \<open>parse_js_number\<close>, and otherwise raises the ParseError "Invalid syntax: " followed by
  \<open>num\<close>.
\<close>

lemma read_num_validation:
  assumes "peek S = Some d" and "is_digit d" and "prefix = None \<or> prefix = Some ''.''"
  shows "case read_num_lexeme prefix S of
           (num, S1) \<Rightarrow>
             if re_test True RE_HEX_NUMBER num \<or> re_test False RE_OCT_NUMBER num
                \<or> re_test True RE_DEC_NUMBER num
             then \<exists>v. read_num prefix S = Inr (token ''num'' (VNum v) False S1)
             else read_num prefix S =
                    Inl (JS_Parse_Error (''Invalid syntax: '' @ num)
                           (tokline S1) (tokcol S1) (tokpos S1))"
proof -
  obtain num S1 where l: "read_num_lexeme prefix S = (num, S1)"
    by (cases "read_num_lexeme prefix S")
  from read_num_lexeme_start [OF assms(1,2), of prefix] l assms(3)
  have "\<exists>v. parseFloat num = Num v"
    using parseFloat_digit [OF assms(2)] parseFloat_dot_digit [OF assms(2)] by auto
  then obtain vf where vf: "parseFloat num = Num vf" by blast
  show ?thesis
  proof (cases "re_test True RE_HEX_NUMBER num")
    case True
    then obtain a b c r where "num = a # b # c # r" "digit_val c < 16"
      using hex_shape by blast
    then obtain v where "parseInt (drop 2 num) 16 = Num v"
      using parseInt_digit [of c 16 r] by auto
    with True l show ?thesis by (auto simp: read_num_def parse_js_number_def)
  next
    case nh: False
    show ?thesis
    proof (cases "re_test False RE_OCT_NUMBER num")
      case True
      then obtain a c r where "num = a # c # r" "digit_val c < 8"
        using oct_shape by blast
      then obtain v where "parseInt (drop 1 num) 8 = Num v"
        using parseInt_digit [of c 8 r] by auto
      with True nh l show ?thesis by (auto simp: read_num_def parse_js_number_def)
    next
      case no: False
      show ?thesis
      proof (cases "re_test True RE_DEC_NUMBER num")
        case True
        with nh no l vf show ?thesis by (auto simp: read_num_def parse_js_number_def)
      next
        case False
        with nh no l show ?thesis
          by (simp add: read_num_def parse_js_number_def parse_error_def)
      qed
    qed
  qed
qed

text \<open>
  C5 (the code at the failing input). The lexeme \<open>1e2.3\<close> is consumed whole and comes
  out as a \<open>num\<close> token of value 100, the \<open>.3\<close> dropped, where the claim has a
  ParseError "Invalid syntax". The dot gets into the exponent only because the mantissa
  had none: the dot test of \<open>read_num\<close> asks for \<open>has_dot\<close> and \<open>has_x\<close> and not for
  \<open>has_e\<close>. On the sibling inputs the dot is not taken: \<open>.5e.3\<close> stops at \<open>.5e\<close> and
  raises "Invalid syntax", and \<open>0.5e1.3\<close> stops at \<open>0.5e1\<close>. A lexeme of another shape,
  such as \<open>1abc\<close>, raises as the claim says.
\<close>

theorem read_num_accepts_dotted_exponent:
  "fst (read_num_lexeme None (tokenizer ''1e2.3'')) = ''1e2.3''
   \<and> map_sum id fst (next_token False (tokenizer ''1e2.3'')) =
     Inr (Token ''num'' (VNum 100) 0 0 0 False (Some []))
   \<and> map_sum id fst (next_token False (tokenizer ''.5e.3'')) =
     Inl (JS_Parse_Error ''Invalid syntax: .5e'' 0 0 0)
   \<and> fst (read_num_lexeme None (tokenizer ''0.5e1.3'')) = ''0.5e1''
   \<and> map_sum id fst (next_token False (tokenizer ''0.5e1.3'')) =
     Inr (Token ''num'' (VNum 5) 0 0 0 False (Some []))
   \<and> map_sum id fst (next_token False (tokenizer ''1abc'')) =
     Inl (JS_Parse_Error ''Invalid syntax: 1abc'' 0 0 0)"
  by code_simp

end
